theory Spec2Isabelle
  imports Main "HOL-Library.AList"
begin

section \<open>The query AST\<close>

text \<open>
  The gateway works on the AST of the \<^verbatim>\<open>graphql\<close> package. A selection is one of three
  node kinds. A field has a name, an argument list and an optional selection set; a
  fragment spread has only a name (no \<^verbatim>\<open>arguments\<close>, no \<^verbatim>\<open>selectionSet\<close>); an inline
  fragment has no \<^verbatim>\<open>name\<close>, an optional type condition and a selection set. Aliases,
  directives and source locations are carried along by the code and never inspected; they
  are left out.
\<close>

datatype gvalue =
    Variable string
  | Scalar string
  | ListValue "gvalue list"
  | ObjectValue "(string \<times> gvalue) list"

datatype argument = Argument (arg_name: string) (arg_value: gvalue)

datatype selection =
    Field string "argument list" "selection list option"
  | FragmentSpread string
  | InlineFragment "string option" "selection list"

record variableDefinition =
  var_name :: string
  var_type :: string

record fragmentDefinition =
  frag_name :: string
  typeCondition :: string
  frag_selections :: "selection list"

text \<open>
  A synthesized document holds one operation definition: the operation keyword, the name,
  the variable definitions and the selections. A variable definition is its name and its
  printed type.
\<close>

record operationDefinition =
  od_operation :: string
  od_name :: string
  od_variableDefinitions :: "variableDefinition list"
  od_selections :: "selection list"

datatype error = TypeError | GraphQLError string | TransportError string

section \<open>Services and the composed schema\<close>

text \<open>
  A promise is pending, fulfilled with a value or rejected with an error.
\<close>

datatype 'a promise = Pending | Fulfilled 'a | Rejected error

datatype jsval =
    Undefined
  | Null
  | Bool bool
  | Num int
  | Str string
  | Arr "jsval list"
  | Obj "(string \<times> jsval) list"

text \<open>
  The body of a request to a service is \<^verbatim>\<open>JSON.stringify({query, variables})\<close>, the query
  being the printed document. The model keeps what is printed and serialised: the
  operation, the fragment definitions appended to it, and the variables object.
\<close>

record payload =
  pl_operation :: operationDefinition
  pl_fragments :: "fragmentDefinition list"
  pl_variables :: "(string \<times> jsval) list"

record response =
  statusCode :: nat
  json :: jsval

text \<open>
  The services built by the gateway module have \<^verbatim>\<open>request\<close>; make-resolver.js calls
  \<^verbatim>\<open>service.sendRequest\<close>, which is \<open>None\<close> where the service object has no such
  property.

  A \<^verbatim>\<open>typeMap\<close> is a JavaScript object from type names to \<^verbatim>\<open>Set\<close>s of field names: an
  association list in key order, each set as the list of its members.
\<close>

type_synonym typeMap = "(string \<times> string list) list"

record service =
  request :: "payload \<Rightarrow> response promise"
  sendRequest :: "(payload \<Rightarrow> response promise) option"
  svc_typeMap :: typeMap
  svc_schemaDefinition :: jsval
  svc_types :: "string list"

datatype typeKind = SCALAR | OBJECT | INTERFACE | UNION | ENUM | INPUT_OBJECT

text \<open>
  A field of the composed schema. \<^verbatim>\<open>getNamedType(field.type)\<close> strips list and non-null
  wrappers and gives the named type object; the code uses its name (as a key of a map) and
  asks whether it is a scalar, so the field carries the name and the kind. A type used as
  an object key is coerced to its name.
\<close>

record gfield =
  field_name :: string
  named_type :: string
  named_kind :: typeKind

record gtype =
  type_name :: string
  type_kind :: typeKind
  type_fields :: "gfield list"

type_synonym schema = "gtype list"

definition getType :: "schema \<Rightarrow> string \<Rightarrow> gtype option" where
  "getType sch n = find (\<lambda>t. type_name t = n) sch"

text \<open>
  \<^verbatim>\<open>getNamedType(schema.getType(type).getFields()[fieldName].type)\<close>: a \<^verbatim>\<open>TypeError\<close> when
  the schema is \<^verbatim>\<open>undefined\<close>, the type is unknown, the type has no \<^verbatim>\<open>getFields\<close> (only
  object, interface and input object types have it) or the field is unknown.
\<close>

definition hasGetFields :: "typeKind \<Rightarrow> bool" where
  "hasGetFields k = (k = OBJECT \<or> k = INTERFACE \<or> k = INPUT_OBJECT)"

definition getFieldType :: "schema option \<Rightarrow> string \<Rightarrow> string \<Rightarrow> error + string" where
  "getFieldType schema type fieldName =
     (case schema of
        None \<Rightarrow> Inl TypeError
      | Some sch \<Rightarrow>
          (case getType sch type of
             None \<Rightarrow> Inl TypeError
           | Some t \<Rightarrow>
               if \<not> hasGetFields (type_kind t) then Inl TypeError
               else (case find (\<lambda>f. field_name f = fieldName) (type_fields t) of
                       None \<Rightarrow> Inl TypeError
                     | Some f \<Rightarrow> Inr (named_type f))))"

section \<open>The selection rewriter of make-resolver.js\<close>

definition typenameField :: selection where
  "typenameField = Field ''__typename'' [] None"

text \<open>
  The predicate of \<^verbatim>\<open>selections.filter\<close>:
  \<^verbatim>\<open>service.typeMap[type].has(selection.name.value) || selection.kind === Kind.FRAGMENT_SPREAD\<close>.
  It throws when the service has no entry for the type and when the selection has no
  name, which is the case of an inline fragment.
\<close>

datatype kind = FIELD | FRAGMENT_SPREAD | INLINE_FRAGMENT

fun kind_of :: "selection \<Rightarrow> kind" where
  "kind_of (Field n args ss) = FIELD"
| "kind_of (FragmentSpread n) = FRAGMENT_SPREAD"
| "kind_of (InlineFragment tc ss) = INLINE_FRAGMENT"

fun sel_name :: "selection \<Rightarrow> string option" where
  "sel_name (Field n args ss) = Some n"
| "sel_name (FragmentSpread n) = Some n"
| "sel_name (InlineFragment tc ss) = None"

definition retained :: "service \<Rightarrow> string \<Rightarrow> selection \<Rightarrow> error + bool" where
  "retained service type selection =
     (case map_of (svc_typeMap service) type of
        None \<Rightarrow> Inl TypeError
      | Some owned \<Rightarrow>
          (case sel_name selection of
             None \<Rightarrow> Inl TypeError
           | Some n \<Rightarrow> Inr (n \<in> set owned \<or> kind_of selection = FRAGMENT_SPREAD)))"

text \<open>\<^verbatim>\<open>selections.filter(predicate)\<close> with a predicate that may throw.\<close>

fun filterSelections :: "(selection \<Rightarrow> error + bool) \<Rightarrow> selection list \<Rightarrow> error + selection list" where
  "filterSelections predicate [] = Inr []"
| "filterSelections predicate (s # rest) =
     (case predicate s of
        Inl e \<Rightarrow> Inl e
      | Inr keep \<Rightarrow>
          (case filterSelections predicate rest of
             Inl e \<Rightarrow> Inl e
           | Inr kept \<Rightarrow> Inr (if keep then s # kept else kept)))"

lemma filterSelections_size:
  "filterSelections predicate sels = Inr kept \<Longrightarrow> size_list size kept \<le> size_list size sels"
  by (induction sels arbitrary: kept) (auto split: sum.splits if_splits)

text \<open>
  \<^verbatim>\<open>removeNonServiceTypeFields\<close> filters, maps over what was kept and appends the
  \<^verbatim>\<open>__typename\<close> field. \<open>mapSelections\<close> is the \<^verbatim>\<open>.map\<close> callback applied along the list: a
  selection with a selection set is copied with its selection set rewritten under the type
  of the field, any other selection is returned as it is.
\<close>

function removeNonServiceTypeFields ::
    "selection list \<Rightarrow> service \<Rightarrow> string \<Rightarrow> schema option \<Rightarrow> error + selection list"
  and mapSelections ::
    "selection list \<Rightarrow> service \<Rightarrow> string \<Rightarrow> schema option \<Rightarrow> error + selection list"
where
  "removeNonServiceTypeFields selections service type schema =
     (case filterSelections (retained service type) selections of
        Inl e \<Rightarrow> Inl e
      | Inr kept \<Rightarrow>
          (case mapSelections kept service type schema of
             Inl e \<Rightarrow> Inl e
           | Inr mapped \<Rightarrow> Inr (mapped @ [typenameField])))"
| "mapSelections [] service type schema = Inr []"
| "mapSelections (Field n args (Some ss) # rest) service type schema =
     (case getFieldType schema type n of
        Inl e \<Rightarrow> Inl e
      | Inr fieldType \<Rightarrow>
          (case removeNonServiceTypeFields ss service fieldType schema of
             Inl e \<Rightarrow> Inl e
           | Inr ss' \<Rightarrow>
               (case mapSelections rest service type schema of
                  Inl e \<Rightarrow> Inl e
                | Inr rest' \<Rightarrow> Inr (Field n args (Some ss') # rest'))))"
| "mapSelections (Field n args None # rest) service type schema =
     (case mapSelections rest service type schema of
        Inl e \<Rightarrow> Inl e
      | Inr rest' \<Rightarrow> Inr (Field n args None # rest'))"
| "mapSelections (FragmentSpread n # rest) service type schema =
     (case mapSelections rest service type schema of
        Inl e \<Rightarrow> Inl e
      | Inr rest' \<Rightarrow> Inr (FragmentSpread n # rest'))"
| "mapSelections (InlineFragment tc ss # rest) service type schema =
     Inl TypeError"
  by pat_completeness auto
termination
  by (relation "measure (\<lambda>x. case x of
          Inl (sels, _) \<Rightarrow> 2 * size_list size sels + 1
        | Inr (sels, _) \<Rightarrow> 2 * size_list size sels)")
     (auto dest: filterSelections_size)

declare removeNonServiceTypeFields.simps [simp del]

section \<open>Fragment forwarding (make-resolver.js)\<close>

fun getFragmentNamesInSelection :: "selection list \<Rightarrow> string list" where
  "getFragmentNamesInSelection [] = []"
| "getFragmentNamesInSelection (Field n args None # rest) = getFragmentNamesInSelection rest"
| "getFragmentNamesInSelection (Field n args (Some ss) # rest) =
     getFragmentNamesInSelection ss @ getFragmentNamesInSelection rest"
| "getFragmentNamesInSelection (FragmentSpread n # rest) = n # getFragmentNamesInSelection rest"
| "getFragmentNamesInSelection (InlineFragment tc ss # rest) =
     getFragmentNamesInSelection ss @ getFragmentNamesInSelection rest"

text \<open>
  \<^verbatim>\<open>collectFragmentsToInclude\<close> calls itself inside its \<^verbatim>\<open>for\<close> loop, and nothing in the
  source bounds the depth of these calls. The model counts them: the first argument is the
  number of nested calls still allowed, and the result \<open>None\<close> says that the call did not
  return within that depth. \<open>Some (Inl e)\<close> is a thrown error, \<open>Some (Inr fs)\<close> the
  returned list.

  \<^verbatim>\<open>visitedFragments\<close> is a local of each call: \<open>forFragments\<close> is the loop of one call
  and carries the set through its iterations, and every nested call starts from the empty
  set. The nested call passes three arguments, so its \<^verbatim>\<open>schema\<close> is \<^verbatim>\<open>undefined\<close>.
\<close>

fun collectFragmentsToInclude ::
    "nat \<Rightarrow> string list \<Rightarrow> (string \<rightharpoonup> fragmentDefinition) \<Rightarrow> service \<Rightarrow> schema option
      \<Rightarrow> (error + fragmentDefinition list) option"
  and forFragments ::
    "nat \<Rightarrow> string list \<Rightarrow> string list \<Rightarrow> (string \<rightharpoonup> fragmentDefinition) \<Rightarrow> service
      \<Rightarrow> schema option \<Rightarrow> (error + fragmentDefinition list) option"
where
  "collectFragmentsToInclude 0 usedFragments fragments service schema = None"
| "collectFragmentsToInclude (Suc depth) usedFragments fragments service schema =
     forFragments depth [] usedFragments fragments service schema"
| "forFragments depth visitedFragments [] fragments service schema = Some (Inr [])"
| "forFragments depth visitedFragments (fragmentName # rest) fragments service schema =
     (case fragments fragmentName of
        None \<Rightarrow> Some (Inl TypeError)
      | Some fragment \<Rightarrow>
          (case removeNonServiceTypeFields (frag_selections fragment) service
                  (typeCondition fragment) schema of
             Inl e \<Rightarrow> Some (Inl e)
           | Inr selections \<Rightarrow>
               (case collectFragmentsToInclude depth
                       (filter (\<lambda>n. n \<notin> set (fragmentName # visitedFragments))
                          (getFragmentNamesInSelection selections))
                       fragments service None of
                  None \<Rightarrow> None
                | Some (Inl e) \<Rightarrow> Some (Inl e)
                | Some (Inr nested) \<Rightarrow>
                    (case forFragments depth (fragmentName # visitedFragments) rest
                            fragments service schema of
                       None \<Rightarrow> None
                     | Some (Inl e) \<Rightarrow> Some (Inl e)
                     | Some (Inr others) \<Rightarrow>
                         Some (Inr (fragment\<lparr>frag_selections := selections\<rparr> # nested @ others))))))"

subsection \<open>Two fragments that spread each other\<close>

definition userService :: service where
  "userService = \<lparr>request = (\<lambda>p. Pending), sendRequest = Some (\<lambda>p. Pending),
     svc_typeMap = [(''User'', [''id'', ''name''])], svc_schemaDefinition = Str [], svc_types = [''User'']\<rparr>"

definition cyclicFragments :: "string \<rightharpoonup> fragmentDefinition" where
  "cyclicFragments =
     [''A'' \<mapsto> \<lparr>frag_name = ''A'', typeCondition = ''User'',
                 frag_selections = [Field ''id'' [] None, FragmentSpread ''B'']\<rparr>,
      ''B'' \<mapsto> \<lparr>frag_name = ''B'', typeCondition = ''User'',
                 frag_selections = [Field ''name'' [] None, FragmentSpread ''A'']\<rparr>]"

section \<open>The selection rewriter as the specification words it\<close>

text \<open>
  The specification of the rewriter: a selection is retained if its field name is in the
  owned-field set of the target service for the current type, or if it is a fragment
  spread; the nested selections of a retained field are rewritten with the declared return
  type of the field as the type context; a \<^verbatim>\<open>__typename\<close> field is appended at every
  level. (An inline fragment is neither, so it is not retained.)
\<close>

definition ownedFields :: "service \<Rightarrow> string \<Rightarrow> string set" where
  "ownedFields service type =
     (case map_of (svc_typeMap service) type of None \<Rightarrow> {} | Some owned \<Rightarrow> set owned)"

definition declaredReturnType :: "schema \<Rightarrow> string \<Rightarrow> string \<Rightarrow> string" where
  "declaredReturnType sch type fieldName =
     (case getType sch type of
        None \<Rightarrow> []
      | Some t \<Rightarrow>
          (case find (\<lambda>f. field_name f = fieldName) (type_fields t) of
             None \<Rightarrow> []
           | Some f \<Rightarrow> named_type f))"

fun selectionRewriterSpec :: "service \<Rightarrow> schema \<Rightarrow> string \<Rightarrow> selection list \<Rightarrow> selection list"
  and prunedSpec :: "service \<Rightarrow> schema \<Rightarrow> string \<Rightarrow> selection list \<Rightarrow> selection list"
where
  "selectionRewriterSpec service sch type sels = prunedSpec service sch type sels @ [typenameField]"
| "prunedSpec service sch type [] = []"
| "prunedSpec service sch type (Field n args None # rest) =
     (if n \<in> ownedFields service type
      then Field n args None # prunedSpec service sch type rest
      else prunedSpec service sch type rest)"
| "prunedSpec service sch type (Field n args (Some nested) # rest) =
     (if n \<in> ownedFields service type
      then Field n args (Some (selectionRewriterSpec service sch (declaredReturnType sch type n) nested))
             # prunedSpec service sch type rest
      else prunedSpec service sch type rest)"
| "prunedSpec service sch type (FragmentSpread n # rest) =
     FragmentSpread n # prunedSpec service sch type rest"
| "prunedSpec service sch type (InlineFragment tc nested # rest) =
     prunedSpec service sch type rest"

declare selectionRewriterSpec.simps [simp del]

text \<open>
  The inputs the rewriter of make-resolver.js can process: no inline fragment among the
  selections, the type known to the service unless there is nothing to filter, and every
  retained field that has nested selections a field of its type in the schema, with nested
  selections that can be processed under its return type.
\<close>

fun rewritable :: "service \<Rightarrow> schema \<Rightarrow> string \<Rightarrow> selection list \<Rightarrow> bool"
  and rewritableEach :: "service \<Rightarrow> schema \<Rightarrow> string \<Rightarrow> selection list \<Rightarrow> bool"
where
  "rewritable service sch type sels =
     ((sels = [] \<or> type \<in> fst ` set (svc_typeMap service)) \<and> rewritableEach service sch type sels)"
| "rewritableEach service sch type [] = True"
| "rewritableEach service sch type (Field n args None # rest) =
     rewritableEach service sch type rest"
| "rewritableEach service sch type (Field n args (Some nested) # rest) =
     ((if n \<in> ownedFields service type
       then (case getFieldType (Some sch) type n of
               Inl e \<Rightarrow> False
             | Inr fieldType \<Rightarrow> rewritable service sch fieldType nested)
       else True) \<and>
      rewritableEach service sch type rest)"
| "rewritableEach service sch type (FragmentSpread n # rest) =
     rewritableEach service sch type rest"
| "rewritableEach service sch type (InlineFragment tc nested # rest) = False"

declare rewritable.simps [simp del]

section \<open>The selection rewriter of the gateway module\<close>

text \<open>
  The gateway module has a \<^verbatim>\<open>removeNonServiceTypeFields\<close> of its own, with three
  parameters. Its filter keeps a selection only by name, and its recursive call passes
  \<^verbatim>\<open>type\<close> on as it received it.
\<close>

definition gateway_retained :: "service \<Rightarrow> string \<Rightarrow> selection \<Rightarrow> error + bool" where
  "gateway_retained service type selection =
     (case map_of (svc_typeMap service) type of
        None \<Rightarrow> Inl TypeError
      | Some owned \<Rightarrow>
          (case sel_name selection of
             None \<Rightarrow> Inl TypeError
           | Some n \<Rightarrow> Inr (n \<in> set owned)))"

function gateway_removeNonServiceTypeFields ::
    "selection list \<Rightarrow> service \<Rightarrow> string \<Rightarrow> error + selection list"
  and gateway_mapSelections ::
    "selection list \<Rightarrow> service \<Rightarrow> string \<Rightarrow> error + selection list"
where
  "gateway_removeNonServiceTypeFields selections service type =
     (case filterSelections (gateway_retained service type) selections of
        Inl e \<Rightarrow> Inl e
      | Inr kept \<Rightarrow>
          (case gateway_mapSelections kept service type of
             Inl e \<Rightarrow> Inl e
           | Inr mapped \<Rightarrow> Inr (mapped @ [typenameField])))"
| "gateway_mapSelections [] service type = Inr []"
| "gateway_mapSelections (Field n args (Some ss) # rest) service type =
     (case gateway_removeNonServiceTypeFields ss service type of
        Inl e \<Rightarrow> Inl e
      | Inr ss' \<Rightarrow>
          (case gateway_mapSelections rest service type of
             Inl e \<Rightarrow> Inl e
           | Inr rest' \<Rightarrow> Inr (Field n args (Some ss') # rest')))"
| "gateway_mapSelections (Field n args None # rest) service type =
     (case gateway_mapSelections rest service type of
        Inl e \<Rightarrow> Inl e
      | Inr rest' \<Rightarrow> Inr (Field n args None # rest'))"
| "gateway_mapSelections (FragmentSpread n # rest) service type =
     (case gateway_mapSelections rest service type of
        Inl e \<Rightarrow> Inl e
      | Inr rest' \<Rightarrow> Inr (FragmentSpread n # rest'))"
| "gateway_mapSelections (InlineFragment tc ss # rest) service type =
     (case gateway_removeNonServiceTypeFields ss service type of
        Inl e \<Rightarrow> Inl e
      | Inr ss' \<Rightarrow>
          (case gateway_mapSelections rest service type of
             Inl e \<Rightarrow> Inl e
           | Inr rest' \<Rightarrow> Inr (InlineFragment tc ss' # rest')))"
  by pat_completeness auto
termination
  by (relation "measure (\<lambda>x. case x of
          Inl (sels, _) \<Rightarrow> 2 * size_list size sels + 1
        | Inr (sels, _) \<Rightarrow> 2 * size_list size sels)")
     (auto dest: filterSelections_size)

declare gateway_removeNonServiceTypeFields.simps [simp del]

section \<open>Operation documents\<close>

definition representationsDefinition :: variableDefinition where
  "representationsDefinition = \<lparr>var_name = ''representations'', var_type = ''[_Any!]!''\<rparr>"

text \<open>The argument object of \<^verbatim>\<open>createOperation\<close> in make-resolver.js.\<close>

record operationArgs =
  a_returnType :: string
  a_parentType :: string
  a_fieldName :: string
  a_selections :: "selection list"
  a_isQuery :: bool
  a_isReference :: bool
  a_variableDefinitions :: "variableDefinition list"
  a_args :: "argument list"
  a_operation :: string

definition createQueryOperation :: "operationArgs \<Rightarrow> operationDefinition" where
  "createQueryOperation a =
     \<lparr>od_operation = a_operation a,
      od_name = ''Query_'' @ a_fieldName a,
      od_variableDefinitions = a_variableDefinitions a,
      od_selections = [Field (a_fieldName a) (a_args a) (Some (a_selections a))]\<rparr>"

definition createEntityReferenceResolverOperation :: "operationArgs \<Rightarrow> operationDefinition" where
  "createEntityReferenceResolverOperation a =
     \<lparr>od_operation = ''query'',
      od_name = ''EntitiesQuery'',
      od_variableDefinitions = a_variableDefinitions a @ [representationsDefinition],
      od_selections =
        [Field ''_entities'' [Argument ''representations'' (Variable ''representations'')]
           (Some [typenameField, InlineFragment (Some (a_returnType a)) (a_selections a)])]\<rparr>"

definition createFieldResolverOperation :: "operationArgs \<Rightarrow> operationDefinition" where
  "createFieldResolverOperation a =
     createEntityReferenceResolverOperation
       (a\<lparr>a_returnType := a_parentType a,
          a_selections := [Field (a_fieldName a) [] (Some (a_selections a))]\<rparr>)"

text \<open>The three builders of the gateway module take positional arguments.\<close>

definition gateway_createQueryOperation :: "string \<Rightarrow> selection list \<Rightarrow> operationDefinition" where
  "gateway_createQueryOperation fieldName selections =
     \<lparr>od_operation = ''query'',
      od_name = ''Query_'' @ fieldName,
      od_variableDefinitions = [],
      od_selections = [Field fieldName [] (Some selections)]\<rparr>"

definition gateway_createEntityReferenceResolverOperation ::
    "string \<Rightarrow> selection list \<Rightarrow> operationDefinition" where
  "gateway_createEntityReferenceResolverOperation inlineFragmentOnType selections =
     \<lparr>od_operation = ''query'',
      od_name = ''EntitiesQuery'',
      od_variableDefinitions = [representationsDefinition],
      od_selections =
        [Field ''_entities'' [Argument ''representations'' (Variable ''representations'')]
           (Some [typenameField, InlineFragment (Some inlineFragmentOnType) selections])]\<rparr>"

definition gateway_createFieldResolverOperation ::
    "string \<Rightarrow> string \<Rightarrow> selection list \<Rightarrow> operationDefinition" where
  "gateway_createFieldResolverOperation fragmentType fieldName selections =
     gateway_createEntityReferenceResolverOperation fragmentType
       [Field fieldName [] (Some selections)]"

section \<open>Variable forwarding (make-resolver.js)\<close>

text \<open>
  \<^verbatim>\<open>collectArgumentNames\<close> looks at the \<^verbatim>\<open>arguments\<close> of a node, which only a field has,
  and pushes \<^verbatim>\<open>argument.name.value\<close> for every argument whose value is a variable.
\<close>

fun sel_arguments :: "selection \<Rightarrow> argument list" where
  "sel_arguments (Field n args ss) = args"
| "sel_arguments (FragmentSpread n) = []"
| "sel_arguments (InlineFragment tc ss) = []"

fun isVariable :: "gvalue \<Rightarrow> bool" where
  "isVariable (Variable v) = True"
| "isVariable _ = False"

definition collectArgumentNames :: "selection \<Rightarrow> string list" where
  "collectArgumentNames fieldNode =
     map arg_name (filter (\<lambda>argument. isVariable (arg_value argument)) (sel_arguments fieldNode))"

fun collectArgumentsWithVariableValues :: "selection list \<Rightarrow> string list" where
  "collectArgumentsWithVariableValues [] = []"
| "collectArgumentsWithVariableValues (Field n args None # rest) =
     collectArgumentNames (Field n args None) @ collectArgumentsWithVariableValues rest"
| "collectArgumentsWithVariableValues (Field n args (Some ss) # rest) =
     collectArgumentNames (Field n args (Some ss)) @ collectArgumentsWithVariableValues ss
       @ collectArgumentsWithVariableValues rest"
| "collectArgumentsWithVariableValues (FragmentSpread n # rest) =
     collectArgumentNames (FragmentSpread n) @ collectArgumentsWithVariableValues rest"
| "collectArgumentsWithVariableValues (InlineFragment tc ss # rest) =
     collectArgumentNames (InlineFragment tc ss) @ collectArgumentsWithVariableValues ss
       @ collectArgumentsWithVariableValues rest"

section \<open>JavaScript values\<close>

text \<open>
  Property access \<^verbatim>\<open>v[key]\<close> throws a \<^verbatim>\<open>TypeError\<close> on \<^verbatim>\<open>undefined\<close> and \<^verbatim>\<open>null\<close>;
  on an object it gives the value of the key, or \<^verbatim>\<open>undefined\<close>. Inherited and built-in
  properties (those of \<^verbatim>\<open>Object.prototype\<close>, the \<^verbatim>\<open>length\<close> of an array or a string) are
  not modelled: any other access gives \<^verbatim>\<open>undefined\<close>. \<open>getFirst\<close> is \<^verbatim>\<open>v[0]\<close>.
\<close>

fun getProp :: "jsval \<Rightarrow> string \<Rightarrow> error + jsval" where
  "getProp Undefined key = Inl TypeError"
| "getProp Null key = Inl TypeError"
| "getProp (Obj props) key = Inr (case map_of props key of None \<Rightarrow> Undefined | Some v \<Rightarrow> v)"
| "getProp v key = Inr Undefined"

fun getFirst :: "jsval \<Rightarrow> error + jsval" where
  "getFirst Undefined = Inl TypeError"
| "getFirst Null = Inl TypeError"
| "getFirst (Arr []) = Inr Undefined"
| "getFirst (Arr (v # vs)) = Inr v"
| "getFirst (Str []) = Inr Undefined"
| "getFirst (Str (c # cs)) = Inr (Str [c])"
| "getFirst (Obj props) = Inr (case map_of props ''0'' of None \<Rightarrow> Undefined | Some v \<Rightarrow> v)"
| "getFirst v = Inr Undefined"

text \<open>\<^verbatim>\<open>promise.then(f)\<close>: an exception thrown by \<^verbatim>\<open>f\<close> rejects the resulting promise.\<close>

definition thenP :: "'a promise \<Rightarrow> ('a \<Rightarrow> error + 'b) \<Rightarrow> 'b promise" where
  "thenP p f =
     (case p of
        Pending \<Rightarrow> Pending
      | Rejected e \<Rightarrow> Rejected e
      | Fulfilled v \<Rightarrow> (case f v of Inl e \<Rightarrow> Rejected e | Inr w \<Rightarrow> Fulfilled w))"

section \<open>The resolver of make-resolver.js\<close>

record originalOperation =
  oo_operation :: string
  oo_variableDefinitions :: "variableDefinition list"

text \<open>
  The \<^verbatim>\<open>info\<close> argument of a resolver. \<^verbatim>\<open>returnType\<close> and \<^verbatim>\<open>parentType\<close> are type
  objects; \<open>i_returnType\<close> is the name of \<^verbatim>\<open>getNamedType(returnType)\<close>.
\<close>

record info =
  i_fieldNodes :: "selection list"
  i_returnType :: string
  i_fieldName :: string
  i_parentType :: string
  i_operation :: originalOperation
  i_variableValues :: "(string \<times> jsval) list"
  i_fragments :: "string \<rightharpoonup> fragmentDefinition"
  i_schema :: schema

text \<open>\<^verbatim>\<open>fieldNodes[0].selectionSet.selections\<close>\<close>

fun firstSelections :: "selection list \<Rightarrow> error + selection list" where
  "firstSelections [] = Inl TypeError"
| "firstSelections (Field n args None # rest) = Inl TypeError"
| "firstSelections (Field n args (Some ss) # rest) = Inr ss"
| "firstSelections (FragmentSpread n # rest) = Inl TypeError"
| "firstSelections (InlineFragment tc ss # rest) = Inr ss"

text \<open>
  The names of \<^verbatim>\<open>variableNamesToDefine\<close>, the filtered variable definitions and the
  variables of the payload. Assigning \<^verbatim>\<open>variables.representations\<close> replaces a forwarded
  variable of that name or adds a new last property.
\<close>

definition variableNamesToDefine :: "selection list \<Rightarrow> selection \<Rightarrow> string list" where
  "variableNamesToDefine selections fieldNode =
     collectArgumentsWithVariableValues selections @ collectArgumentNames fieldNode"

definition variablesToDefine :: "originalOperation \<Rightarrow> string list \<Rightarrow> variableDefinition list" where
  "variablesToDefine originalOperation names =
     filter (\<lambda>definition. var_name definition \<in> set names) (oo_variableDefinitions originalOperation)"

definition forwardedVariables :: "(string \<times> jsval) list \<Rightarrow> string list \<Rightarrow> (string \<times> jsval) list" where
  "forwardedVariables variableValues names =
     filter (\<lambda>(variableName, variableValue). variableName \<in> set names) variableValues"

definition addRepresentations ::
    "bool \<Rightarrow> bool \<Rightarrow> jsval \<Rightarrow> string \<Rightarrow> (string \<times> jsval) list \<Rightarrow> error + (string \<times> jsval) list" where
  "addRepresentations isQuery isReference parent fieldName vars =
     (if isReference then
        (case getProp parent fieldName of
           Inl e \<Rightarrow> Inl e
         | Inr v \<Rightarrow> Inr (AList.update ''representations'' (Arr [v]) vars))
      else if \<not> isQuery then Inr (AList.update ''representations'' (Arr [parent]) vars)
      else Inr vars)"

text \<open>
  The body of the resolver up to the call of \<^verbatim>\<open>service.sendRequest\<close>: what is sent. The
  first argument bounds the depth of the nested calls of \<^verbatim>\<open>collectFragmentsToInclude\<close>.
  The document is kept as the operation and the fragment definitions, which the source
  prints one after the other.
\<close>

definition resolverPayload ::
    "nat \<Rightarrow> service \<Rightarrow> (operationArgs \<Rightarrow> operationDefinition) \<Rightarrow> bool \<Rightarrow> bool \<Rightarrow> jsval \<Rightarrow> info
      \<Rightarrow> (error + payload) option" where
  "resolverPayload depth service createOperation isQuery isReference parent info =
     (case i_fieldNodes info of
        [] \<Rightarrow> Some (Inl TypeError)
      | fieldNode # _ \<Rightarrow>
     (case firstSelections (i_fieldNodes info) of
        Inl e \<Rightarrow> Some (Inl e)
      | Inr original \<Rightarrow>
     (case removeNonServiceTypeFields original service (i_returnType info) (Some (i_schema info)) of
        Inl e \<Rightarrow> Some (Inl e)
      | Inr selections \<Rightarrow>
     (let names = variableNamesToDefine selections fieldNode;
          operation = createOperation
            \<lparr>a_returnType = i_returnType info,
             a_parentType = i_parentType info,
             a_fieldName = i_fieldName info,
             a_selections = selections,
             a_isQuery = isQuery,
             a_isReference = isReference,
             a_variableDefinitions = variablesToDefine (i_operation info) names,
             a_args = sel_arguments fieldNode,
             a_operation = oo_operation (i_operation info)\<rparr>
      in
     (case collectFragmentsToInclude depth (getFragmentNamesInSelection selections)
             (i_fragments info) service (Some (i_schema info)) of
        None \<Rightarrow> None
      | Some (Inl e) \<Rightarrow> Some (Inl e)
      | Some (Inr fragmentsToDefine) \<Rightarrow>
     (case addRepresentations isQuery isReference parent (i_fieldName info)
             (forwardedVariables (i_variableValues info) names) of
        Inl e \<Rightarrow> Some (Inl e)
      | Inr vars \<Rightarrow>
          Some (Inr \<lparr>pl_operation = operation, pl_fragments = fragmentsToDefine,
                      pl_variables = vars\<rparr>)))))))"


text \<open>
  The variables a list of selections refers to, as the specification words it: every
  variable that occurs in the value of an argument, at any nesting of the selections.
\<close>

fun variablesOfValue :: "gvalue \<Rightarrow> string list" where
  "variablesOfValue (Variable v) = [v]"
| "variablesOfValue (Scalar x) = []"
| "variablesOfValue (ListValue vs) = concat (map variablesOfValue vs)"
| "variablesOfValue (ObjectValue fs) = concat (map (\<lambda>f. variablesOfValue (snd f)) fs)"

definition variablesOfArguments :: "argument list \<Rightarrow> string list" where
  "variablesOfArguments args = concat (map (\<lambda>a. variablesOfValue (arg_value a)) args)"

fun referencedVariables :: "selection list \<Rightarrow> string list" where
  "referencedVariables [] = []"
| "referencedVariables (Field n args None # rest) =
     variablesOfArguments args @ referencedVariables rest"
| "referencedVariables (Field n args (Some ss) # rest) =
     variablesOfArguments args @ referencedVariables ss @ referencedVariables rest"
| "referencedVariables (FragmentSpread n # rest) = referencedVariables rest"
| "referencedVariables (InlineFragment tc ss # rest) =
     referencedVariables ss @ referencedVariables rest"

section \<open>The resolvers of the gateway module\<close>

text \<open>
  \<^verbatim>\<open>sendServiceRequest(service, query, variables = {})\<close> posts the printed query and the
  variables through \<^verbatim>\<open>service.request\<close>.
\<close>

definition sendServiceRequest ::
    "service \<Rightarrow> operationDefinition \<Rightarrow> (string \<times> jsval) list \<Rightarrow> response promise" where
  "sendServiceRequest service query vars =
     request service \<lparr>pl_operation = query, pl_fragments = [], pl_variables = vars\<rparr>"

text \<open>
  Each resolver is split in two: the operation and the variables it passes to
  \<^verbatim>\<open>sendServiceRequest\<close>, and the resolver itself, which sends them and reads the value
  of the field out of the response. \<^verbatim>\<open>defineResolvers\<close> may pass \<^verbatim>\<open>undefined\<close> for the
  service, on which every use of the service throws.
\<close>

definition resolveQueryRequest :: "service \<Rightarrow> info \<Rightarrow> error + payload" where
  "resolveQueryRequest service info =
     (case firstSelections (i_fieldNodes info) of
        Inl e \<Rightarrow> Inl e
      | Inr original \<Rightarrow>
          (case gateway_removeNonServiceTypeFields original service (i_returnType info) of
             Inl e \<Rightarrow> Inl e
           | Inr selections \<Rightarrow>
               Inr \<lparr>pl_operation = gateway_createQueryOperation (i_fieldName info) selections,
                    pl_fragments = [], pl_variables = []\<rparr>))"

definition makeResolveQuery :: "service option \<Rightarrow> jsval \<Rightarrow> info \<Rightarrow> error + jsval promise" where
  "makeResolveQuery service root info =
     (case service of
        None \<Rightarrow> Inl TypeError
      | Some svc \<Rightarrow>
          (case resolveQueryRequest svc info of
             Inl e \<Rightarrow> Inl e
           | Inr body \<Rightarrow>
               Inr (thenP (sendServiceRequest svc (pl_operation body) (pl_variables body))
                      (\<lambda>response.
                         case getProp (json response) ''data'' of
                           Inl e \<Rightarrow> Inl e
                         | Inr d \<Rightarrow> getProp d (i_fieldName info)))))"

definition fieldResolverRequest :: "service \<Rightarrow> string \<Rightarrow> jsval \<Rightarrow> info \<Rightarrow> error + payload" where
  "fieldResolverRequest service typeForFragment parent info =
     (case firstSelections (i_fieldNodes info) of
        Inl e \<Rightarrow> Inl e
      | Inr original \<Rightarrow>
          (case gateway_removeNonServiceTypeFields original service (i_returnType info) of
             Inl e \<Rightarrow> Inl e
           | Inr selections \<Rightarrow>
               Inr \<lparr>pl_operation =
                      gateway_createFieldResolverOperation typeForFragment (i_fieldName info) selections,
                    pl_fragments = [],
                    pl_variables = [(''representations'', Arr [parent])]\<rparr>))"

definition makeFieldResolver ::
    "service option \<Rightarrow> string \<Rightarrow> jsval \<Rightarrow> info \<Rightarrow> error + jsval promise" where
  "makeFieldResolver service typeForFragment parent info =
     (case service of
        None \<Rightarrow> Inl TypeError
      | Some svc \<Rightarrow>
          (case fieldResolverRequest svc typeForFragment parent info of
             Inl e \<Rightarrow> Inl e
           | Inr body \<Rightarrow>
               Inr (thenP (sendServiceRequest svc (pl_operation body) (pl_variables body))
                      (\<lambda>response.
                         case getProp (json response) ''data'' of
                           Inl e \<Rightarrow> Inl e
                         | Inr d \<Rightarrow>
                             (case getProp d ''_entities'' of
                                Inl e \<Rightarrow> Inl e
                              | Inr es \<Rightarrow>
                                  (case getFirst es of
                                     Inl e \<Rightarrow> Inl e
                                   | Inr entity \<Rightarrow> getProp entity (i_fieldName info)))))))"

definition referenceResolverRequest :: "service \<Rightarrow> jsval \<Rightarrow> info \<Rightarrow> error + payload" where
  "referenceResolverRequest service parent info =
     (case firstSelections (i_fieldNodes info) of
        Inl e \<Rightarrow> Inl e
      | Inr original \<Rightarrow>
          (case gateway_removeNonServiceTypeFields original service (i_returnType info) of
             Inl e \<Rightarrow> Inl e
           | Inr selections \<Rightarrow>
               (case getProp parent (i_fieldName info) of
                  Inl e \<Rightarrow> Inl e
                | Inr reference \<Rightarrow>
                    Inr \<lparr>pl_operation =
                           gateway_createEntityReferenceResolverOperation (i_returnType info) selections,
                         pl_fragments = [],
                         pl_variables = [(''representations'', Arr [reference])]\<rparr>)))"

definition makeReferenceResolver :: "service option \<Rightarrow> jsval \<Rightarrow> info \<Rightarrow> error + jsval promise" where
  "makeReferenceResolver service parent info =
     (case service of
        None \<Rightarrow> Inl TypeError
      | Some svc \<Rightarrow>
          (case referenceResolverRequest svc parent info of
             Inl e \<Rightarrow> Inl e
           | Inr body \<Rightarrow>
               Inr (thenP (sendServiceRequest svc (pl_operation body) (pl_variables body))
                      (\<lambda>response.
                         case getProp (json response) ''data'' of
                           Inl e \<Rightarrow> Inl e
                         | Inr d \<Rightarrow>
                             (case getProp d ''_entities'' of
                                Inl e \<Rightarrow> Inl e
                              | Inr es \<Rightarrow> getFirst es)))))"

section \<open>Reading the value of the field out of a response\<close>

text \<open>
  The three access paths of the specification, \<^verbatim>\<open>response.json.data[fieldName]\<close>,
  \<^verbatim>\<open>response.json.data._entities[0]\<close> and \<^verbatim>\<open>response.json.data._entities[0][fieldName]\<close>,
  and the promise a \<^verbatim>\<open>then\<close> callback leaves behind: fulfilled with the value, or rejected
  when the access throws.
\<close>

definition bindE :: "error + 'a \<Rightarrow> ('a \<Rightarrow> error + 'b) \<Rightarrow> error + 'b" where
  "bindE r f = (case r of Inl e \<Rightarrow> Inl e | Inr v \<Rightarrow> f v)"

definition json_data_field :: "response \<Rightarrow> string \<Rightarrow> error + jsval" where
  "json_data_field response fieldName =
     bindE (getProp (json response) ''data'') (\<lambda>d. getProp d fieldName)"

definition json_data_entities0 :: "response \<Rightarrow> error + jsval" where
  "json_data_entities0 response =
     bindE (getProp (json response) ''data'') (\<lambda>d. bindE (getProp d ''_entities'') getFirst)"

definition json_data_entities0_field :: "response \<Rightarrow> string \<Rightarrow> error + jsval" where
  "json_data_entities0_field response fieldName =
     bindE (json_data_entities0 response) (\<lambda>entity. getProp entity fieldName)"

definition settled :: "error + 'a \<Rightarrow> 'a promise" where
  "settled r = (case r of Inl e \<Rightarrow> Rejected e | Inr v \<Rightarrow> Fulfilled v)"

section \<open>Attaching resolvers (gateway module)\<close>

text \<open>
  The ownership index \<^verbatim>\<open>typeToServiceMap\<close> maps a type name to a service name or to
  \<^verbatim>\<open>null\<close> (\<open>Some None\<close>); a type without entry reads as \<^verbatim>\<open>undefined\<close> (\<open>None\<close>).
  Comparison with \<^verbatim>\<open>!==\<close> tells the three apart. Used as a key of \<^verbatim>\<open>serviceMap\<close>, an
  owner is converted to a string.

  \<^verbatim>\<open>defineResolvers\<close> assigns \<^verbatim>\<open>field.resolve\<close> in place. The model returns every type
  of the schema with its fields, each field with the resolver assigned to it, if any;
  \<^verbatim>\<open>serviceMap[serviceForType].typeMap[type.name].has\<close> throws where the declaring type
  has no service or the service no entry for the type.
\<close>

type_synonym typeToServiceMap = "(string \<times> string option) list"

definition ownerKey :: "string option option \<Rightarrow> string" where
  "ownerKey owner =
     (case owner of None \<Rightarrow> ''undefined'' | Some None \<Rightarrow> ''null'' | Some (Some name) \<Rightarrow> name)"

datatype resolver =
    ResolveQuery "service option"
  | ReferenceResolver "service option"
  | FieldResolver "service option" string

definition isDefaultType :: "string \<Rightarrow> bool" where
  "isDefaultType type =
     (type \<in> set [''__Schema'', ''__Type'', ''__Field'', ''__InputValue'', ''__EnumValue'',
                   ''__Directive''])"

definition defineField ::
    "typeToServiceMap \<Rightarrow> (string \<times> service) list \<Rightarrow> gtype \<Rightarrow> gfield \<Rightarrow> error + resolver option" where
  "defineField typeToServiceMap serviceMap type field =
     (let serviceForType = map_of typeToServiceMap (type_name type) in
      if named_kind field \<noteq> SCALAR then
        (let serviceForFieldType = map_of typeToServiceMap (named_type field) in
         if serviceForFieldType \<noteq> serviceForType then
           (if serviceForType = Some None then
              Inr (Some (ResolveQuery (map_of serviceMap (ownerKey serviceForFieldType))))
            else
              (case map_of serviceMap (ownerKey serviceForType) of
                 None \<Rightarrow> Inl TypeError
               | Some declaring \<Rightarrow>
                   (case map_of (svc_typeMap declaring) (type_name type) of
                      None \<Rightarrow> Inl TypeError
                    | Some owned \<Rightarrow>
                        if field_name field \<in> set owned then
                          Inr (Some (ReferenceResolver
                                 (map_of serviceMap (ownerKey serviceForFieldType))))
                        else
                          Inr (Some (FieldResolver
                                 (map_of serviceMap (ownerKey serviceForFieldType))
                                 (type_name type))))))
         else Inr None)
      else Inr None)"

fun defineFields ::
    "typeToServiceMap \<Rightarrow> (string \<times> service) list \<Rightarrow> gtype \<Rightarrow> gfield list
      \<Rightarrow> error + (gfield \<times> resolver option) list" where
  "defineFields typeToServiceMap serviceMap type [] = Inr []"
| "defineFields typeToServiceMap serviceMap type (field # rest) =
     (case defineField typeToServiceMap serviceMap type field of
        Inl e \<Rightarrow> Inl e
      | Inr attached \<Rightarrow>
          (case defineFields typeToServiceMap serviceMap type rest of
             Inl e \<Rightarrow> Inl e
           | Inr others \<Rightarrow> Inr ((field, attached) # others)))"

fun defineTypes ::
    "typeToServiceMap \<Rightarrow> (string \<times> service) list \<Rightarrow> gtype list
      \<Rightarrow> error + (gtype \<times> (gfield \<times> resolver option) list) list" where
  "defineTypes typeToServiceMap serviceMap [] = Inr []"
| "defineTypes typeToServiceMap serviceMap (type # rest) =
     (case (if type_kind type = OBJECT \<and> \<not> isDefaultType (type_name type)
            then defineFields typeToServiceMap serviceMap type (type_fields type)
            else Inr (map (\<lambda>field. (field, None)) (type_fields type))) of
        Inl e \<Rightarrow> Inl e
      | Inr fs \<Rightarrow>
          (case defineTypes typeToServiceMap serviceMap rest of
             Inl e \<Rightarrow> Inl e
           | Inr others \<Rightarrow> Inr ((type, fs) # others)))"

definition defineResolvers ::
    "schema \<Rightarrow> typeToServiceMap \<Rightarrow> (string \<times> service) list
      \<Rightarrow> error + (gtype \<times> (gfield \<times> resolver option) list) list" where
  "defineResolvers schema typeToServiceMap serviceMap =
     defineTypes typeToServiceMap serviceMap schema"

section \<open>Bootstrapping (gateway module)\<close>

subsection \<open>Properties of a JavaScript object\<close>

text \<open>
  An object is the list of its properties in enumeration order: keys that are array
  indices first, in ascending numeric order, then the other keys in the order of their
  creation. Assigning to an existing key keeps its place.
\<close>

definition isDigit :: "char \<Rightarrow> bool" where
  "isDigit c = (c \<in> set ''0123456789'')"

definition digitValue :: "char \<Rightarrow> nat" where
  "digitValue c = of_char c - 48"

definition indexValue :: "string \<Rightarrow> nat" where
  "indexValue key = foldl (\<lambda>n c. 10 * n + digitValue c) 0 key"

definition isArrayIndex :: "string \<Rightarrow> bool" where
  "isArrayIndex key =
     (key \<noteq> [] \<and> list_all isDigit key \<and> (key = ''0'' \<or> hd key \<noteq> CHR ''0'') \<and>
      indexValue key < 4294967295)"

fun insertIndexKey :: "string \<Rightarrow> 'v \<Rightarrow> (string \<times> 'v) list \<Rightarrow> (string \<times> 'v) list" where
  "insertIndexKey key v [] = [(key, v)]"
| "insertIndexKey key v ((k, w) # rest) =
     (if isArrayIndex k \<and> indexValue k < indexValue key
      then (k, w) # insertIndexKey key v rest
      else (key, v) # (k, w) # rest)"

definition objSet :: "string \<Rightarrow> 'v \<Rightarrow> (string \<times> 'v) list \<Rightarrow> (string \<times> 'v) list" where
  "objSet key v obj =
     (if key \<in> fst ` set obj then AList.update key v obj
      else if isArrayIndex key then insertIndexKey key v obj
      else obj @ [(key, v)])"

subsection \<open>The request helper of a service\<close>

text \<open>
  \<^verbatim>\<open>serviceConfig.request\<close> returns a promise and hands a callback to the transport. What
  the transport does afterwards is a sequence of events: it calls the callback with an
  error, or with a response carrying a status code, and the stream of the response emits
  chunks of data and its end. On a response with status 200 the callback starts collecting
  the data; at the end of the stream it parses what it collected and resolves the promise.
  \<^verbatim>\<open>JSON.parse\<close> is a parameter; where it throws (\<open>None\<close>), the exception leaves the
  listener and the promise stays as it is. A promise settles once: \<^verbatim>\<open>resolve\<close> and
  \<^verbatim>\<open>reject\<close> have no effect on a settled promise.
\<close>

datatype event = Done_error error | Done_response nat | Stream_data string | Stream_end

record requestState =
  rs_promise :: "response promise"
  rs_data :: "string option"

definition settle :: "response promise \<Rightarrow> response promise \<Rightarrow> response promise" where
  "settle outcome p = (if p = Pending then outcome else p)"

fun handle :: "(string \<Rightarrow> jsval option) \<Rightarrow> requestState \<Rightarrow> event \<Rightarrow> requestState" where
  "handle parseJSON st (Done_error err) = st\<lparr>rs_promise := settle (Rejected err) (rs_promise st)\<rparr>"
| "handle parseJSON st (Done_response code) =
     (if code = 200 then st\<lparr>rs_data := Some []\<rparr> else st)"
| "handle parseJSON st (Stream_data chunk) =
     (case rs_data st of
        None \<Rightarrow> st
      | Some d \<Rightarrow> st\<lparr>rs_data := Some (d @ chunk)\<rparr>)"
| "handle parseJSON st Stream_end =
     (case rs_data st of
        None \<Rightarrow> st
      | Some d \<Rightarrow>
          (case parseJSON d of
             None \<Rightarrow> st
           | Some j \<Rightarrow>
               st\<lparr>rs_promise := settle (Fulfilled \<lparr>statusCode = 200, json = j\<rparr>) (rs_promise st)\<rparr>))"

definition serviceRequest :: "(string \<Rightarrow> jsval option) \<Rightarrow> event list \<Rightarrow> response promise" where
  "serviceRequest parseJSON events =
     rs_promise (foldl (handle parseJSON) \<lparr>rs_promise = Pending, rs_data = None\<rparr> events)"

subsection \<open>Introspection of a service\<close>

text \<open>
  What lies outside the module is a parameter: the events of the transport for a request
  to a URL, \<^verbatim>\<open>JSON.parse\<close>, the \<^verbatim>\<open>parse\<close> of the graphql package, whether \<^verbatim>\<open>new URL\<close>
  accepts a string, and \<^verbatim>\<open>buildFederatedSchema\<close>.
\<close>

datatype defKind = TypeDefinition | TypeExtension | OtherDefinition

text \<open>
  A definition of a parsed SDL document: \<^verbatim>\<open>isTypeDefinitionNode\<close> or
  \<^verbatim>\<open>isTypeExtensionNode\<close> or neither, its name, and the names of its \<^verbatim>\<open>fields\<close>, a
  property that only object, interface and input object nodes have.
\<close>

record definitionNode =
  def_kind :: defKind
  def_name :: string
  def_fields :: "string list option"

record environment =
  env_transport :: "string \<Rightarrow> payload \<Rightarrow> event list"
  env_JSON_parse :: "string \<Rightarrow> jsval option"
  env_parse :: "string \<Rightarrow> error + definitionNode list"
  env_URL :: "string \<Rightarrow> bool"
  env_buildFederatedSchema :: "string \<Rightarrow> error + schema"

fun addDefinitions :: "definitionNode list \<Rightarrow> typeMap \<Rightarrow> error + typeMap" where
  "addDefinitions [] typeMap = Inr typeMap"
| "addDefinitions (d # rest) typeMap =
     (if def_kind d = TypeDefinition \<or> (def_kind d = TypeExtension \<and> def_name d = ''Query'')
      then (case def_fields d of
              None \<Rightarrow> Inl TypeError
            | Some names \<Rightarrow> addDefinitions rest (objSet (def_name d) names typeMap))
      else addDefinitions rest typeMap)"

text \<open>
  \<^verbatim>\<open>createTypeMap\<close> receives whatever \<^verbatim>\<open>_service.sdl\<close> holds. The parser of the graphql
  package rejects what is not a string.
\<close>

definition createTypeMap :: "environment \<Rightarrow> jsval \<Rightarrow> error + typeMap" where
  "createTypeMap env schemaDefinition =
     (case schemaDefinition of
        Str sdl \<Rightarrow>
          (case env_parse env sdl of
             Inl e \<Rightarrow> Inl e
           | Inr definitions \<Rightarrow> addDefinitions definitions [])
      | _ \<Rightarrow> Inl (GraphQLError ''Must provide Source''))"

definition serviceInfoQuery :: payload where
  "serviceInfoQuery =
     \<lparr>pl_operation =
        \<lparr>od_operation = ''query'', od_name = ''ServiceInfo'', od_variableDefinitions = [],
         od_selections = [Field ''_service'' [] (Some [Field ''sdl'' [] None])]\<rparr>,
      pl_fragments = [], pl_variables = []\<rparr>"

definition configRequest :: "environment \<Rightarrow> string \<Rightarrow> payload \<Rightarrow> response promise" where
  "configRequest env url body = serviceRequest (env_JSON_parse env) (env_transport env url body)"

definition init :: "environment \<Rightarrow> string \<Rightarrow> (jsval \<times> typeMap) promise" where
  "init env url =
     thenP (configRequest env url serviceInfoQuery)
       (\<lambda>response.
          bindE (getProp (json response) ''data'') (\<lambda>d.
          bindE (getProp d ''_service'') (\<lambda>sv.
          bindE (getProp sv ''sdl'') (\<lambda>schemaDefinition.
          bindE (createTypeMap env schemaDefinition) (\<lambda>typeMap.
          Inr (schemaDefinition, typeMap))))))"

subsection \<open>The service map\<close>

record serviceOptions =
  so_name :: string
  so_url :: string

text \<open>
  The first loop of \<^verbatim>\<open>buildServiceMap\<close> stores one configuration per service name, the
  later of two services of one name replacing the earlier; \<^verbatim>\<open>new URL\<close> throws on a string
  it does not accept. The configuration is represented by its URL.
\<close>

fun configure :: "environment \<Rightarrow> serviceOptions list \<Rightarrow> (string \<times> string) list
    \<Rightarrow> error + (string \<times> string) list" where
  "configure env [] serviceMap = Inr serviceMap"
| "configure env (service # rest) serviceMap =
     (if env_URL env (so_url service)
      then configure env rest (objSet (so_name service) (so_url service) serviceMap)
      else Inl TypeError)"

text \<open>
  \<^verbatim>\<open>pmap(services, mapper, { concurrency: 8 })\<close> of the p-map package, with its default
  \<^verbatim>\<open>stopOnError\<close>. It starts the first \<open>concurrency\<close> mappers and one more each time a
  mapper fulfils; it rejects with the error of the first mapper that rejects and fulfils
  when all have fulfilled. The order in which the mappers settle is not determined by the
  program, so the model gives the list of the outcomes that can occur. A mapper that does
  not fulfil keeps its place, hence the mapper of item \<open>i\<close> can be the first to reject if
  it rejects and fewer than \<open>concurrency\<close> of the items before it are not fulfilled.
\<close>

definition isFulfilled :: "'a promise \<Rightarrow> bool" where
  "isFulfilled p = (case p of Fulfilled v \<Rightarrow> True | _ \<Rightarrow> False)"

fun firstRejections :: "nat \<Rightarrow> nat \<Rightarrow> 'a promise list \<Rightarrow> error list" where
  "firstRejections concurrency blocked [] = []"
| "firstRejections concurrency blocked (p # rest) =
     (if blocked < concurrency then
        (case p of
           Fulfilled v \<Rightarrow> firstRejections concurrency blocked rest
         | Rejected e \<Rightarrow> e # firstRejections concurrency (Suc blocked) rest
         | Pending \<Rightarrow> firstRejections concurrency (Suc blocked) rest)
      else [])"

fun fulfilledValues :: "'a promise list \<Rightarrow> 'a list" where
  "fulfilledValues [] = []"
| "fulfilledValues (Fulfilled v # rest) = v # fulfilledValues rest"
| "fulfilledValues (p # rest) = fulfilledValues rest"

definition pmap :: "nat \<Rightarrow> 'a promise list \<Rightarrow> 'a list promise list" where
  "pmap concurrency mapped =
     (if firstRejections concurrency 0 mapped \<noteq> []
      then map Rejected (firstRejections concurrency 0 mapped)
      else if list_all isFulfilled mapped then [Fulfilled (fulfilledValues mapped)]
      else [Pending])"

text \<open>
  The mapper of a service awaits the \<^verbatim>\<open>init\<close> of the configuration stored under its name
  and stores the SDL, the type map and the set of its keys in that configuration.
\<close>

definition mapper :: "environment \<Rightarrow> (string \<times> string) list \<Rightarrow> serviceOptions
    \<Rightarrow> (string \<times> jsval \<times> typeMap) promise" where
  "mapper env serviceMap service =
     (case map_of serviceMap (so_name service) of
        None \<Rightarrow> Rejected TypeError
      | Some url \<Rightarrow>
          thenP (init env url) (\<lambda>(schemaDefinition, typeMap).
            Inr (so_name service, schemaDefinition, typeMap)))"

definition initialised :: "environment \<Rightarrow> (string \<times> jsval \<times> typeMap) list \<Rightarrow> string \<times> string
    \<Rightarrow> string \<times> service" where
  "initialised env results entry =
     (case entry of (name, url) \<Rightarrow>
        (case map_of results name of
           None \<Rightarrow>
             (name, \<lparr>request = configRequest env url, sendRequest = None, svc_typeMap = [],
                     svc_schemaDefinition = Undefined, svc_types = []\<rparr>)
         | Some (schemaDefinition, typeMap) \<Rightarrow>
             (name, \<lparr>request = configRequest env url, sendRequest = None, svc_typeMap = typeMap,
                     svc_schemaDefinition = schemaDefinition, svc_types = map fst typeMap\<rparr>)))"

definition buildServiceMap :: "environment \<Rightarrow> serviceOptions list \<Rightarrow> (string \<times> service) list promise list" where
  "buildServiceMap env services =
     (case configure env services [] of
        Inl e \<Rightarrow> [Rejected e]
      | Inr serviceMap \<Rightarrow>
          map (\<lambda>outcome. thenP outcome (\<lambda>results. Inr (map (initialised env results) serviceMap)))
            (pmap 8 (map (mapper env serviceMap) services)))"

subsection \<open>The ownership index and the gateway\<close>

fun assignTypes :: "string \<Rightarrow> string list \<Rightarrow> typeToServiceMap \<Rightarrow> typeToServiceMap" where
  "assignTypes service [] typeToServiceMap = typeToServiceMap"
| "assignTypes service (type # rest) typeToServiceMap =
     assignTypes service rest (objSet type (Some service) typeToServiceMap)"

fun assignServices :: "(string \<times> service) list \<Rightarrow> typeToServiceMap \<Rightarrow> typeToServiceMap" where
  "assignServices [] typeToServiceMap = typeToServiceMap"
| "assignServices ((service, serviceDefinition) # rest) typeToServiceMap =
     assignServices rest (assignTypes service (svc_types serviceDefinition) typeToServiceMap)"

definition buildTypeToServiceMap :: "(string \<times> service) list \<Rightarrow> typeToServiceMap" where
  "buildTypeToServiceMap serviceMap = objSet ''Query'' None (assignServices serviceMap [])"

text \<open>
  \<^verbatim>\<open>serviceSDLs.join('')\<close> converts each element to a string; after a fulfilled \<^verbatim>\<open>init\<close>
  the SDL is a string.
\<close>

fun sdlText :: "jsval \<Rightarrow> string" where
  "sdlText (Str sdl) = sdl"
| "sdlText v = []"

record gateway =
  gw_schema :: "(gtype \<times> (gfield \<times> resolver option) list) list"
  gw_serviceMap :: "(string \<times> service) list"

definition composeGateway :: "environment \<Rightarrow> (string \<times> service) list \<Rightarrow> error + gateway" where
  "composeGateway env serviceMap =
     (case env_buildFederatedSchema env
             (concat (map (\<lambda>(name, service). sdlText (svc_schemaDefinition service)) serviceMap)) of
        Inl e \<Rightarrow> Inl e
      | Inr schema \<Rightarrow>
          (case defineResolvers schema (buildTypeToServiceMap serviceMap) serviceMap of
             Inl e \<Rightarrow> Inl e
           | Inr resolved \<Rightarrow> Inr \<lparr>gw_schema = resolved, gw_serviceMap = serviceMap\<rparr>))"

definition buildGateway :: "environment \<Rightarrow> serviceOptions list \<Rightarrow> gateway promise list" where
  "buildGateway env services =
     map (\<lambda>outcome. thenP outcome (composeGateway env)) (buildServiceMap env services)"

section \<open>Example inputs\<close>

definition accountSchema :: schema where
  "accountSchema =
     [\<lparr>type_name = ''Query'', type_kind = OBJECT, type_fields =
         [\<lparr>field_name = ''me'', named_type = ''User'', named_kind = OBJECT\<rparr>,
          \<lparr>field_name = ''user'', named_type = ''User'', named_kind = OBJECT\<rparr>]\<rparr>,
      \<lparr>type_name = ''User'', type_kind = OBJECT, type_fields =
         [\<lparr>field_name = ''id'', named_type = ''ID'', named_kind = SCALAR\<rparr>,
          \<lparr>field_name = ''name'', named_type = ''String'', named_kind = SCALAR\<rparr>,
          \<lparr>field_name = ''secret'', named_type = ''String'', named_kind = SCALAR\<rparr>,
          \<lparr>field_name = ''address'', named_type = ''Address'', named_kind = OBJECT\<rparr>]\<rparr>,
      \<lparr>type_name = ''Address'', type_kind = OBJECT, type_fields =
         [\<lparr>field_name = ''city'', named_type = ''String'', named_kind = SCALAR\<rparr>,
          \<lparr>field_name = ''zip'', named_type = ''String'', named_kind = SCALAR\<rparr>]\<rparr>]"

definition accountService :: service where
  "accountService = \<lparr>request = (\<lambda>p. Pending), sendRequest = Some (\<lambda>p. Pending),
     svc_typeMap = [(''Query'', [''me'', ''user'']), (''User'', [''id'', ''name'', ''address'']),
                    (''Address'', [''city''])],
     svc_schemaDefinition = Str [], svc_types = [''Query'', ''User'', ''Address'']\<rparr>"

text \<open>The selections \<^verbatim>\<open>{ id secret address { city zip } ...F }\<close> on a \<^verbatim>\<open>User\<close>.\<close>

definition userSelections :: "selection list" where
  "userSelections =
     [Field ''id'' [] None, Field ''secret'' [] None,
      Field ''address'' [] (Some [Field ''city'' [] None, Field ''zip'' [] None]),
      FragmentSpread ''F'']"

text \<open>
  The request \<^verbatim>\<open>query ($userId: ID!) { user(id: $userId) { name } }\<close> with
  \<^verbatim>\<open>userId = "1"\<close>, at the field \<^verbatim>\<open>Query.user\<close>.
\<close>

definition userQueryInfo :: info where
  "userQueryInfo =
     \<lparr>i_fieldNodes = [Field ''user'' [Argument ''id'' (Variable ''userId'')] (Some [Field ''name'' [] None])],
      i_returnType = ''User'',
      i_fieldName = ''user'',
      i_parentType = ''Query'',
      i_operation = \<lparr>oo_operation = ''query'',
                      oo_variableDefinitions = [\<lparr>var_name = ''userId'', var_type = ''ID!''\<rparr>]\<rparr>,
      i_variableValues = [(''userId'', Str ''1'')],
      i_fragments = Map.empty,
      i_schema = accountSchema\<rparr>"

text \<open>
  The scenario of the specification: reviews live in one service, products in another, which
  also extends \<^verbatim>\<open>Review\<close> with the field \<^verbatim>\<open>product\<close>. The request is
  \<^verbatim>\<open>{ reviews { id product { name } } }\<close>, resolved at \<^verbatim>\<open>Review.product\<close> for the review
  \<^verbatim>\<open>r1\<close>; the product service answers every request with \<open>productResponse\<close>.
\<close>

definition productField :: gfield where
  "productField = \<lparr>field_name = ''product'', named_type = ''Product'', named_kind = OBJECT\<rparr>"

definition reviewType :: gtype where
  "reviewType =
     \<lparr>type_name = ''Review'', type_kind = OBJECT, type_fields =
        [\<lparr>field_name = ''id'', named_type = ''ID'', named_kind = SCALAR\<rparr>,
         \<lparr>field_name = ''productId'', named_type = ''ID'', named_kind = SCALAR\<rparr>,
         productField]\<rparr>"

definition reviewSchema :: schema where
  "reviewSchema =
     [\<lparr>type_name = ''Query'', type_kind = OBJECT, type_fields =
         [\<lparr>field_name = ''reviews'', named_type = ''Review'', named_kind = OBJECT\<rparr>]\<rparr>,
      reviewType,
      \<lparr>type_name = ''Product'', type_kind = OBJECT, type_fields =
         [\<lparr>field_name = ''id'', named_type = ''ID'', named_kind = SCALAR\<rparr>,
          \<lparr>field_name = ''name'', named_type = ''String'', named_kind = SCALAR\<rparr>]\<rparr>]"

definition productResponse :: response where
  "productResponse =
     \<lparr>statusCode = 200,
      json = Obj [(''data'', Obj [(''_entities'',
               Arr [Obj [(''__typename'', Str ''Review''),
                         (''product'', Obj [(''name'', Str ''Chair''), (''__typename'', Str ''Product'')])]]),
             (''product'', Obj [(''name'', Str ''Table'')])])]\<rparr>"

definition productService :: service where
  "productService = \<lparr>request = (\<lambda>p. Fulfilled productResponse),
     sendRequest = Some (\<lambda>p. Fulfilled productResponse),
     svc_typeMap = [(''Product'', [''id'', ''name''])],
     svc_schemaDefinition = Str [], svc_types = [''Product'']\<rparr>"

definition reviewParent :: jsval where
  "reviewParent = Obj [(''__typename'', Str ''Review''), (''id'', Str ''r1''),
                       (''product'', Obj [(''__typename'', Str ''Product''), (''id'', Str ''p1'')])]"

definition productInfo :: info where
  "productInfo =
     \<lparr>i_fieldNodes = [Field ''product'' [] (Some [Field ''name'' [] None])],
      i_returnType = ''Product'',
      i_fieldName = ''product'',
      i_parentType = ''Review'',
      i_operation = \<lparr>oo_operation = ''query'', oo_variableDefinitions = []\<rparr>,
      i_variableValues = [],
      i_fragments = Map.empty,
      i_schema = reviewSchema\<rparr>"

definition reviewsService :: service where
  "reviewsService = \<lparr>request = (\<lambda>p. Pending), sendRequest = None,
     svc_typeMap = [(''Query'', [''reviews'']), (''Review'', [''id'', ''productId''])],
     svc_schemaDefinition = Str [], svc_types = [''Query'', ''Review'']\<rparr>"

definition reviewServiceMap :: "(string \<times> service) list" where
  "reviewServiceMap = [(''reviews'', reviewsService), (''products'', productService)]"


text \<open>
  An object type that no service declares (it comes from an extension only), with a field
  of the type \<^verbatim>\<open>Review\<close>.
\<close>

definition undeclaredType :: gtype where
  "undeclaredType =
     \<lparr>type_name = ''Mutation'', type_kind = OBJECT, type_fields =
        [\<lparr>field_name = ''addReview'', named_type = ''Review'', named_kind = OBJECT\<rparr>]\<rparr>"

text \<open>
  A service that declares \<^verbatim>\<open>Query\<close>, \<^verbatim>\<open>Mutation\<close> and \<^verbatim>\<open>User\<close>.
\<close>

definition mutationService :: service where
  "mutationService = \<lparr>request = (\<lambda>p. Pending), sendRequest = None,
     svc_typeMap = [(''Query'', [''me'']), (''Mutation'', [''createUser'']), (''User'', [''id''])],
     svc_schemaDefinition = Str [], svc_types = [''Query'', ''Mutation'', ''User'']\<rparr>"

text \<open>
  Two services \<open>a\<close> and \<open>b\<close>, and an environment in which every service answers the
  introspection query with status 200; the service at the URL \<open>failing\<close> answers with a
  body that has \<^verbatim>\<open>data\<close> but no \<^verbatim>\<open>_service\<close>, the others with their SDL.
\<close>

definition bootEnv :: "string \<Rightarrow> environment" where
  "bootEnv failing =
     \<lparr>env_transport = (\<lambda>url body.
        [Done_response 200, Stream_data (if url = failing then ''empty'' else ''sdl''), Stream_end]),
      env_JSON_parse = (\<lambda>text.
        if text = ''sdl'' then Some (Obj [(''data'', Obj [(''_service'', Obj [(''sdl'', Str ''type Query'')])])])
        else if text = ''empty'' then Some (Obj [(''data'', Obj [])])
        else None),
      env_parse = (\<lambda>sdl. Inr [\<lparr>def_kind = TypeDefinition, def_name = ''Query'', def_fields = Some [''me'']\<rparr>]),
      env_URL = (\<lambda>url. True),
      env_buildFederatedSchema = (\<lambda>sdl. Inr [])\<rparr>"

definition twoServices :: "serviceOptions list" where
  "twoServices = [\<lparr>so_name = ''a'', so_url = ''http://a''\<rparr>, \<lparr>so_name = ''b'', so_url = ''http://b''\<rparr>]"

section \<open>The ownership index as the specification words it\<close>

text \<open>
  The owner of a type is the service whose type map has the type as a key; where several
  services have it, the one processed last.
\<close>

fun lastDeclaring :: "(string \<times> service) list \<Rightarrow> string \<Rightarrow> string option" where
  "lastDeclaring [] type = None"
| "lastDeclaring ((name, service) # rest) type =
     (case lastDeclaring rest type of
        Some later \<Rightarrow> Some later
      | None \<Rightarrow> if type \<in> fst ` set (svc_typeMap service) then Some name else None)"

section \<open>The classification as the specification words it\<close>

text \<open>
  A field crosses services when it is a field of an object type other than the
  introspection types, its named return type is not a scalar, and the owner of the return
  type is not the owner of the declaring type. A crossing field is root-delegated when
  the declaring type is owned by nobody (\<^verbatim>\<open>null\<close>), an entity reference when the type map
  of the declaring service lists the field under the declaring type, and a field resolver
  otherwise; a field that does not cross gets no delegating resolver. The resolver targets
  the service found under the owner of the return type.
\<close>

definition crossing :: "typeToServiceMap \<Rightarrow> gtype \<Rightarrow> gfield \<Rightarrow> bool" where
  "crossing index type field =
     (type_kind type = OBJECT \<and> \<not> isDefaultType (type_name type) \<and> named_kind field \<noteq> SCALAR \<and>
      map_of index (named_type field) \<noteq> map_of index (type_name type))"

definition declaringService :: "typeToServiceMap \<Rightarrow> (string \<times> service) list \<Rightarrow> gtype \<Rightarrow> service option" where
  "declaringService index serviceMap type =
     map_of serviceMap (ownerKey (map_of index (type_name type)))"

definition fieldListed :: "typeToServiceMap \<Rightarrow> (string \<times> service) list \<Rightarrow> gtype \<Rightarrow> gfield \<Rightarrow> bool" where
  "fieldListed index serviceMap type field =
     (case declaringService index serviceMap type of
        None \<Rightarrow> False
      | Some declaring \<Rightarrow> field_name field \<in> ownedFields declaring (type_name type))"

definition classifySpec ::
    "typeToServiceMap \<Rightarrow> (string \<times> service) list \<Rightarrow> gtype \<Rightarrow> gfield \<Rightarrow> resolver option" where
  "classifySpec index serviceMap type field =
     (if crossing index type field then
        (if map_of index (type_name type) = Some None then
           Some (ResolveQuery (map_of serviceMap (ownerKey (map_of index (named_type field)))))
         else if fieldListed index serviceMap type field then
           Some (ReferenceResolver (map_of serviceMap (ownerKey (map_of index (named_type field)))))
         else
           Some (FieldResolver (map_of serviceMap (ownerKey (map_of index (named_type field))))
                   (type_name type)))
      else None)"

text \<open>
  The schemas on which \<^verbatim>\<open>defineResolvers\<close> returns: wherever a field crosses and its
  declaring type is not owned by nobody, the owner of the declaring type is a service of
  the service map whose type map has an entry for the type.
\<close>

definition declared :: "typeToServiceMap \<Rightarrow> (string \<times> service) list \<Rightarrow> gtype \<Rightarrow> bool" where
  "declared index serviceMap type =
     (case declaringService index serviceMap type of
        None \<Rightarrow> False
      | Some declaring \<Rightarrow> map_of (svc_typeMap declaring) (type_name type) \<noteq> None)"

definition attachable :: "typeToServiceMap \<Rightarrow> (string \<times> service) list \<Rightarrow> schema \<Rightarrow> bool" where
  "attachable index serviceMap schema =
     list_all (\<lambda>type.
        list_all (\<lambda>field.
           if crossing index type field \<and> map_of index (type_name type) \<noteq> Some None
           then declared index serviceMap type else True)
          (type_fields type))
       schema"

section \<open>The outcome of a request as the specification words it\<close>

text \<open>
  The promise settles at the first event that settles it, and stays pending if there is
  none. An error reported by the transport settles it: the promise is rejected with that
  error. The end of the stream settles it when a response with status 200 has come before
  and the body read since then parses: the promise is fulfilled with status 200 and the
  parsed body. No other event settles it. The body read is what the chunks received since
  the last response with status 200 make together.
\<close>

fun chunksOf :: "event list \<Rightarrow> string list" where
  "chunksOf [] = []"
| "chunksOf (Stream_data chunk # rest) = chunk # chunksOf rest"
| "chunksOf (ev # rest) = chunksOf rest"

definition sinceLastOk :: "event list \<Rightarrow> event list" where
  "sinceLastOk events = rev (takeWhile (\<lambda>ev. ev \<noteq> Done_response 200) (rev events))"

definition collectedBody :: "event list \<Rightarrow> string option" where
  "collectedBody events =
     (if Done_response 200 \<in> set events then Some (concat (chunksOf (sinceLastOk events)))
      else None)"

fun settlesWith :: "(string \<Rightarrow> jsval option) \<Rightarrow> event list \<Rightarrow> event \<Rightarrow> response promise option" where
  "settlesWith parseJSON before (Done_error err) = Some (Rejected err)"
| "settlesWith parseJSON before Stream_end =
     (case collectedBody before of
        None \<Rightarrow> None
      | Some body \<Rightarrow>
          (case parseJSON body of
             None \<Rightarrow> None
           | Some j \<Rightarrow> Some (Fulfilled \<lparr>statusCode = 200, json = j\<rparr>)))"
| "settlesWith parseJSON before ev = None"

fun requestOutcome :: "(string \<Rightarrow> jsval option) \<Rightarrow> event list \<Rightarrow> event list \<Rightarrow> response promise" where
  "requestOutcome parseJSON before [] = Pending"
| "requestOutcome parseJSON before (ev # later) =
     (case settlesWith parseJSON before ev of
        Some outcome \<Rightarrow> outcome
      | None \<Rightarrow> requestOutcome parseJSON (before @ [ev]) later)"

section \<open>Properties\<close>

subsection \<open>The rewriter of make-resolver.js refines its specification\<close>

lemma getFieldType_declared:
  "getFieldType (Some sch) type n = Inr t \<Longrightarrow> declaredReturnType sch type n = t"
  by (auto simp: getFieldType_def declaredReturnType_def split: option.splits if_splits)

lemma retained_Field:
  "retained service type (Field n args ss) = Inr b \<Longrightarrow> b = (n \<in> ownedFields service type)"
  by (auto simp: retained_def ownedFields_def split: option.splits)

lemma retained_FragmentSpread:
  "retained service type (FragmentSpread n) = Inr b \<Longrightarrow> b"
  by (auto simp: retained_def split: option.splits)

lemma retained_InlineFragment: "retained service type (InlineFragment tc ss) = Inl TypeError"
  by (auto simp: retained_def split: option.splits)

lemma filterSelections_prunedSpec:
  "filterSelections (retained service type) sels = Inr kept \<Longrightarrow>
     prunedSpec service sch type kept = prunedSpec service sch type sels \<and>
     (\<forall>s \<in> set kept. retained service type s = Inr True)"
proof (induction sels arbitrary: kept)
  case Nil
  then show ?case by simp
next
  case (Cons s rest)
  then obtain keep kept' where r: "retained service type s = Inr keep"
    and f: "filterSelections (retained service type) rest = Inr kept'"
    and k: "kept = (if keep then s # kept' else kept')"
    by (auto split: sum.splits)
  note ih = Cons.IH [OF f]
  show ?case
  proof (cases s)
    case (Field n args ss)
    with r have "keep = (n \<in> ownedFields service type)" by (auto dest: retained_Field)
    with Field ih k r show ?thesis by (cases ss) auto
  next
    case (FragmentSpread n)
    with r have keep by (auto dest: retained_FragmentSpread)
    with FragmentSpread ih k r show ?thesis by auto
  next
    case (InlineFragment tc ss)
    with r show ?thesis by (simp add: retained_InlineFragment)
  qed
qed

lemma rewriter_refines:
  shows "schema = Some sch \<Longrightarrow> removeNonServiceTypeFields sels service type schema = Inr out \<Longrightarrow>
       out = selectionRewriterSpec service sch type sels"
  and "schema' = Some sch \<Longrightarrow> mapSelections kept service' type' schema' = Inr mapped \<Longrightarrow>
       \<forall>s \<in> set kept. retained service' type' s = Inr True \<Longrightarrow>
       mapped = prunedSpec service' sch type' kept"
proof (induction sels service type schema and kept service' type' schema'
    arbitrary: out and mapped rule: removeNonServiceTypeFields_mapSelections.induct)
  case (1 selections service type schema)
  from "1.prems"(2) obtain kept mapped where f: "filterSelections (retained service type) selections = Inr kept"
    and m: "mapSelections kept service type schema = Inr mapped"
    and o: "out = mapped @ [typenameField]"
    by (auto simp: removeNonServiceTypeFields.simps split: sum.splits)
  from filterSelections_prunedSpec [OF f, of sch]
  have p: "prunedSpec service sch type kept = prunedSpec service sch type selections"
    and a: "\<forall>s \<in> set kept. retained service type s = Inr True" by auto
  from "1.IH" [OF f "1.prems"(1) m a] have "mapped = prunedSpec service sch type kept" .
  with p o show ?case
    by (simp add: selectionRewriterSpec.simps)
next
  case (2 service type schema)
  then show ?case by simp
next
  case (3 n args ss rest service type schema)
  from "3.prems"(2) obtain ft ss' rest' where g: "getFieldType schema type n = Inr ft"
    and r: "removeNonServiceTypeFields ss service ft schema = Inr ss'"
    and t: "mapSelections rest service type schema = Inr rest'"
    and e: "mapped = Field n args (Some ss') # rest'"
    by (auto split: sum.splits)
  from "3.prems"(3) have own: "n \<in> ownedFields service type" by (auto dest: retained_Field)
  from g "3.prems"(1) have d: "declaredReturnType sch type n = ft"
    by (simp add: getFieldType_declared)
  from "3.IH"(1) [OF g "3.prems"(1) r] have 1: "ss' = selectionRewriterSpec service sch ft ss" .
  from "3.IH"(2) [OF g r "3.prems"(1) t] "3.prems"(3)
  have 2: "rest' = prunedSpec service sch type rest" by simp
  from own d 1 2 e show ?case by simp
next
  case (4 n args rest service type schema)
  from "4.prems"(2) obtain rest' where t: "mapSelections rest service type schema = Inr rest'"
    and e: "mapped = Field n args None # rest'"
    by (auto split: sum.splits)
  from "4.prems"(3) have own: "n \<in> ownedFields service type" by (auto dest: retained_Field)
  from "4.IH" [OF "4.prems"(1) t] "4.prems"(3)
  have "rest' = prunedSpec service sch type rest" by simp
  with own e show ?case by simp
next
  case (5 n rest service type schema)
  from "5.prems"(2) obtain rest' where t: "mapSelections rest service type schema = Inr rest'"
    and e: "mapped = FragmentSpread n # rest'"
    by (auto split: sum.splits)
  from "5.IH" [OF "5.prems"(1) t] "5.prems"(3)
  have "rest' = prunedSpec service sch type rest" by simp
  with e show ?case by simp
next
  case (6 tc ss rest service type schema)
  then show ?case by simp
qed

lemma retained_known:
  "type \<in> fst ` set (svc_typeMap service) \<Longrightarrow> sel_name s = Some n \<Longrightarrow>
     retained service type s = Inr (n \<in> ownedFields service type \<or> kind_of s = FRAGMENT_SPREAD)"
  by (auto simp: retained_def ownedFields_def map_of_eq_None_iff split: option.splits)

lemma rewritableEach_no_inline:
  "rewritableEach service sch type sels \<Longrightarrow> s \<in> set sels \<Longrightarrow> sel_name s \<noteq> None"
  by (induction service sch type sels rule: rewritable_rewritableEach.induct(2)) auto

lemma filterSelections_returns:
  "type \<in> fst ` set (svc_typeMap service) \<Longrightarrow> \<forall>s \<in> set sels. sel_name s \<noteq> None \<Longrightarrow>
     \<exists>kept. filterSelections (retained service type) sels = Inr kept"
proof (induction sels)
  case Nil
  show ?case by simp
next
  case (Cons s rest)
  then obtain n where "sel_name s = Some n" by auto
  with Cons show ?case by (auto simp: retained_known)
qed

lemma filterSelections_rewritableEach:
  "filterSelections (retained service type) sels = Inr kept \<Longrightarrow>
     rewritableEach service sch type sels \<Longrightarrow> rewritableEach service sch type kept"
proof (induction sels arbitrary: kept)
  case Nil
  then show ?case by simp
next
  case (Cons s rest)
  then obtain keep kept' where r: "retained service type s = Inr keep"
    and f: "filterSelections (retained service type) rest = Inr kept'"
    and k: "kept = (if keep then s # kept' else kept')"
    by (auto split: sum.splits)
  show ?case
  proof (cases s)
    case (Field n args ss)
    with Cons.prems(2) have "rewritableEach service sch type rest" by (cases ss) auto
    from Cons.IH [OF f this] Field Cons.prems(2) k show ?thesis by (cases ss) auto
  next
    case (FragmentSpread n)
    with Cons.prems(2) have "rewritableEach service sch type rest" by simp
    from Cons.IH [OF f this] FragmentSpread k show ?thesis by auto
  next
    case (InlineFragment tc ss)
    with Cons.prems(2) show ?thesis by simp
  qed
qed

lemma rewriter_returns:
  shows "schema = Some sch \<Longrightarrow> rewritable service sch type sels \<Longrightarrow>
       \<exists>out. removeNonServiceTypeFields sels service type schema = Inr out"
  and "schema' = Some sch \<Longrightarrow> rewritableEach service' sch type' kept \<Longrightarrow>
       \<forall>s \<in> set kept. retained service' type' s = Inr True \<Longrightarrow>
       \<exists>mapped. mapSelections kept service' type' schema' = Inr mapped"
proof (induction sels service type schema and kept service' type' schema'
    rule: removeNonServiceTypeFields_mapSelections.induct)
  case (1 selections service type schema)
  from "1.prems"(2) have e: "rewritableEach service sch type selections"
    and t: "selections = [] \<or> type \<in> fst ` set (svc_typeMap service)"
    by (simp_all add: rewritable.simps)
  have "\<exists>kept. filterSelections (retained service type) selections = Inr kept"
  proof (cases "selections = []")
    case True
    then show ?thesis by simp
  next
    case False
    with t have "type \<in> fst ` set (svc_typeMap service)" by simp
    moreover from e have "\<forall>s \<in> set selections. sel_name s \<noteq> None"
      using rewritableEach_no_inline by blast
    ultimately show ?thesis by (rule filterSelections_returns)
  qed
  then obtain kept where f: "filterSelections (retained service type) selections = Inr kept" ..
  from filterSelections_prunedSpec [OF f, of sch]
  have a: "\<forall>s \<in> set kept. retained service type s = Inr True" by simp
  from filterSelections_rewritableEach [OF f e] have k: "rewritableEach service sch type kept" .
  from "1.IH" [OF f "1.prems"(1) k a] obtain mapped where
    "mapSelections kept service type schema = Inr mapped" ..
  with f show ?case by (simp add: removeNonServiceTypeFields.simps)
next
  case (2 service type schema)
  show ?case by simp
next
  case (3 n args ss rest service type schema)
  from "3.prems"(3) have own: "n \<in> ownedFields service type" by (auto dest: retained_Field)
  with "3.prems"(1,2) obtain ft where g: "getFieldType schema type n = Inr ft"
    and w: "rewritable service sch ft ss" and r: "rewritableEach service sch type rest"
    by (auto split: sum.splits)
  from "3.IH"(1) [OF g "3.prems"(1) w] obtain ss' where
    s: "removeNonServiceTypeFields ss service ft schema = Inr ss'" ..
  from "3.IH"(2) [OF g s "3.prems"(1) r] "3.prems"(3) obtain rest' where
    "mapSelections rest service type schema = Inr rest'" by auto
  with g s show ?case by simp
next
  case (4 n args rest service type schema)
  from "4.IH" [OF "4.prems"(1)] "4.prems"(2,3) obtain rest' where
    "mapSelections rest service type schema = Inr rest'" by auto
  then show ?case by simp
next
  case (5 n rest service type schema)
  from "5.IH" [OF "5.prems"(1)] "5.prems"(2,3) obtain rest' where
    "mapSelections rest service type schema = Inr rest'" by auto
  then show ?case by simp
next
  case (6 tc ss rest service type schema)
  then show ?case by simp
qed

lemma retained_type_known:
  "retained service type s = Inr b \<Longrightarrow> type \<in> fst ` set (svc_typeMap service)"
proof -
  assume "retained service type s = Inr b"
  then have "map_of (svc_typeMap service) type \<noteq> None"
    by (auto simp: retained_def split: option.splits)
  then show ?thesis by (simp add: map_of_eq_None_iff)
qed

lemma filterSelections_rewritableEach_back:
  "filterSelections (retained service type) sels = Inr kept \<Longrightarrow>
     rewritableEach service sch type kept \<Longrightarrow> rewritableEach service sch type sels"
proof (induction sels arbitrary: kept)
  case Nil
  then show ?case by simp
next
  case (Cons s rest)
  then obtain keep kept' where r: "retained service type s = Inr keep"
    and f: "filterSelections (retained service type) rest = Inr kept'"
    and k: "kept = (if keep then s # kept' else kept')"
    by (auto split: sum.splits)
  show ?case
  proof (cases s)
    case (Field n args ss)
    with r have o: "keep = (n \<in> ownedFields service type)" by (auto dest: retained_Field)
    from Cons.prems(2) k Field have "rewritableEach service sch type kept'"
      by (cases ss) (auto split: if_splits)
    from Cons.IH [OF f this] Cons.prems(2) k Field o show ?thesis
      by (cases ss) (auto split: if_splits)
  next
    case (FragmentSpread n)
    from Cons.prems(2) k FragmentSpread have "rewritableEach service sch type kept'"
      by (auto split: if_splits)
    from Cons.IH [OF f this] FragmentSpread show ?thesis by simp
  next
    case (InlineFragment tc ss)
    with r show ?thesis by (simp add: retained_InlineFragment)
  qed
qed

lemma filterSelections_type_known:
  "filterSelections (retained service type) sels = Inr kept \<Longrightarrow> sels \<noteq> [] \<Longrightarrow>
     type \<in> fst ` set (svc_typeMap service)"
  by (cases sels) (auto split: sum.splits dest: retained_type_known)

lemma rewriter_returns_only:
  shows "schema = Some sch \<Longrightarrow> removeNonServiceTypeFields sels service type schema = Inr out \<Longrightarrow>
       rewritable service sch type sels"
  and "schema' = Some sch \<Longrightarrow> mapSelections kept service' type' schema' = Inr mapped \<Longrightarrow>
       \<forall>s \<in> set kept. retained service' type' s = Inr True \<Longrightarrow>
       rewritableEach service' sch type' kept"
proof (induction sels service type schema and kept service' type' schema'
    arbitrary: out and mapped rule: removeNonServiceTypeFields_mapSelections.induct)
  case (1 selections service type schema)
  from "1.prems"(2) obtain kept mapped where
    f: "filterSelections (retained service type) selections = Inr kept"
    and m: "mapSelections kept service type schema = Inr mapped"
    by (auto simp: removeNonServiceTypeFields.simps split: sum.splits)
  from filterSelections_prunedSpec [OF f, of sch]
  have a: "\<forall>s \<in> set kept. retained service type s = Inr True" by simp
  from "1.IH" [OF f "1.prems"(1) m a] have "rewritableEach service sch type kept" .
  from filterSelections_rewritableEach_back [OF f this]
  have "rewritableEach service sch type selections" .
  with filterSelections_type_known [OF f] show ?case by (auto simp: rewritable.simps)
next
  case (2 service type schema)
  show ?case by simp
next
  case (3 n args ss rest service type schema)
  from "3.prems"(2) obtain ft ss' rest' where g: "getFieldType schema type n = Inr ft"
    and r: "removeNonServiceTypeFields ss service ft schema = Inr ss'"
    and t: "mapSelections rest service type schema = Inr rest'"
    by (auto split: sum.splits)
  from "3.IH"(1) [OF g "3.prems"(1) r] have 1: "rewritable service sch ft ss" .
  from "3.IH"(2) [OF g r "3.prems"(1) t] "3.prems"(3)
  have 2: "rewritableEach service sch type rest" by simp
  from g "3.prems"(1) 1 2 show ?case by simp
next
  case (4 n args rest service type schema)
  from "4.prems"(2) obtain rest' where t: "mapSelections rest service type schema = Inr rest'"
    by (auto split: sum.splits)
  from "4.IH" [OF "4.prems"(1) t] "4.prems"(3) show ?case by simp
next
  case (5 n rest service type schema)
  from "5.prems"(2) obtain rest' where t: "mapSelections rest service type schema = Inr rest'"
    by (auto split: sum.splits)
  from "5.IH" [OF "5.prems"(1) t] "5.prems"(3) show ?case by simp
next
  case (6 tc ss rest service type schema)
  then show ?case by simp
qed

lemma rewriter_domain:
  "(\<exists>out. removeNonServiceTypeFields selections service type (Some sch) = Inr out) =
     rewritable service sch type selections"
  using rewriter_returns(1) [of "Some sch" sch service type selections]
    rewriter_returns_only(1) [of "Some sch" sch selections service type]
  by auto

text \<open>
  C2, as the code has it. On every input it can process, the selection rewriter of
  make-resolver.js returns the list the specification describes: the input selections
  whose field name is in the owned-field set of the service for the current type, and the
  fragment spreads, in their order, each retained field with its nested selections
  rewritten in the same way under its return type, and one \<^verbatim>\<open>__typename\<close> field appended
  as the last selection of every level.
\<close>

theorem removeNonServiceTypeFields_rewrites:
  "rewritable service sch type selections \<Longrightarrow>
     removeNonServiceTypeFields selections service type (Some sch) =
       Inr (selectionRewriterSpec service sch type selections)"
  using rewriter_returns(1) [of "Some sch" sch service type selections]
    rewriter_refines(1) [of "Some sch" sch selections service type]
  by auto

lemma userSelections_rewritten:
  "removeNonServiceTypeFields userSelections accountService ''User'' (Some accountSchema) =
     Inr [Field ''id'' [] None,
          Field ''address'' [] (Some [Field ''city'' [] None, typenameField]),
          FragmentSpread ''F'', typenameField]"
  by (simp add: removeNonServiceTypeFields.simps userSelections_def accountService_def
      accountSchema_def retained_def getFieldType_def getType_def hasGetFields_def)

lemma userSelections_rewritable:
  "rewritable accountService accountSchema ''User'' userSelections"
  by (simp add: rewritable.simps userSelections_def accountService_def accountSchema_def
      ownedFields_def getFieldType_def getType_def hasGetFields_def)

theorem removeNonServiceTypeFields_rewrites_witness:
  "rewritable accountService accountSchema ''User'' userSelections \<and>
   selectionRewriterSpec accountService accountSchema ''User'' userSelections =
     [Field ''id'' [] None,
      Field ''address'' [] (Some [Field ''city'' [] None, typenameField]),
      FragmentSpread ''F'', typenameField]"
  using removeNonServiceTypeFields_rewrites [OF userSelections_rewritable]
    userSelections_rewritable userSelections_rewritten
  by simp

text \<open>
  C2, as it is stated, holds for every selection list. An inline fragment is a selection
  without a name, and the filter of the rewriter reads \<^verbatim>\<open>selection.name.value\<close>: on
  \<^verbatim>\<open>{ id ... on User { name } }\<close> the rewriter throws.
\<close>

theorem removeNonServiceTypeFields_throws_on_inline_fragment:
  "removeNonServiceTypeFields
     [Field ''id'' [] None, InlineFragment (Some ''User'') [Field ''name'' [] None]]
     accountService ''User'' (Some accountSchema) = Inl TypeError"
  by (simp add: removeNonServiceTypeFields.simps retained_def accountService_def)

subsection \<open>The type context of nested selections\<close>

text \<open>
  The rewriter of make-resolver.js rewrites the nested selections of a retained field
  under the named return type of that field.
\<close>

lemma mapSelections_uses_field_type:
  "getFieldType schema type n = Inr fieldType \<Longrightarrow>
   removeNonServiceTypeFields ss service fieldType schema = Inr ss' \<Longrightarrow>
   mapSelections [Field n args (Some ss)] service type schema = Inr [Field n args (Some ss')]"
  by simp

text \<open>
  C6. The nested selection set of a retained field is to be pruned under the declared
  return type of the field. The rewriter of the gateway module prunes it under the type of
  the parent: for \<^verbatim>\<open>{ id address { city zip } }\<close> on a \<^verbatim>\<open>User\<close>, the service owning
  \<^verbatim>\<open>Address.city\<close>, the nested \<^verbatim>\<open>city\<close> is checked against the fields of \<^verbatim>\<open>User\<close>
  and dropped.
\<close>

theorem gateway_removeNonServiceTypeFields_keeps_parent_type:
  "gateway_removeNonServiceTypeFields
     [Field ''id'' [] None, Field ''address'' [] (Some [Field ''city'' [] None, Field ''zip'' [] None])]
     accountService ''User''
   = Inr [Field ''id'' [] None, Field ''address'' [] (Some [typenameField]), typenameField]"
  by (simp add: gateway_removeNonServiceTypeFields.simps accountService_def gateway_retained_def)

subsection \<open>Variable forwarding\<close>

text \<open>
  C3. The variable definitions of a synthesized operation are claimed to be exactly the
  variables its selections and the arguments of the originating field refer to. For
  \<^verbatim>\<open>query ($userId: ID!) { user(id: $userId) { name } }\<close> the resolver collects the
  argument name \<^verbatim>\<open>id\<close> where the variable is \<^verbatim>\<open>userId\<close>: the operation it builds uses
  \<^verbatim>\<open>$userId\<close>, defines no variable and is sent with no variable value.
\<close>

theorem makeResolver_collects_argument_names:
  "resolverPayload 1 accountService createQueryOperation True False Undefined userQueryInfo =
     Some (Inr \<lparr>pl_operation =
                  \<lparr>od_operation = ''query'', od_name = ''Query_user'',
                   od_variableDefinitions = [],
                   od_selections =
                     [Field ''user'' [Argument ''id'' (Variable ''userId'')]
                        (Some [Field ''name'' [] None, typenameField])]\<rparr>,
                pl_fragments = [], pl_variables = []\<rparr>) \<and>
   referencedVariables
     [Field ''user'' [Argument ''id'' (Variable ''userId'')]
        (Some [Field ''name'' [] None, typenameField])] = [''userId'']"
  by (simp add: resolverPayload_def userQueryInfo_def accountService_def accountSchema_def
      removeNonServiceTypeFields.simps retained_def variableNamesToDefine_def
      collectArgumentNames_def variablesToDefine_def forwardedVariables_def
      addRepresentations_def createQueryOperation_def typenameField_def
      variablesOfArguments_def)

subsection \<open>Representations\<close>

lemma resolveQueryRequest_sent:
  "resolveQueryRequest svc info = Inr body \<Longrightarrow>
     sendServiceRequest svc (pl_operation body) (pl_variables body) = request svc body"
  by (auto simp: resolveQueryRequest_def sendServiceRequest_def split: sum.splits)

lemma referenceResolverRequest_sent:
  "referenceResolverRequest svc parent info = Inr body \<Longrightarrow>
     sendServiceRequest svc (pl_operation body) (pl_variables body) = request svc body"
  by (auto simp: referenceResolverRequest_def sendServiceRequest_def split: sum.splits)

lemma fieldResolverRequest_sent:
  "fieldResolverRequest svc typeForFragment parent info = Inr body \<Longrightarrow>
     sendServiceRequest svc (pl_operation body) (pl_variables body) = request svc body"
  by (auto simp: fieldResolverRequest_def sendServiceRequest_def split: sum.splits)









lemma gateway_productSelections_rewritten:
  "gateway_removeNonServiceTypeFields [Field ''name'' [] None] productService ''Product'' =
     Inr [Field ''name'' [] None, typenameField]"
  by (simp add: gateway_removeNonServiceTypeFields.simps productService_def gateway_retained_def)


lemma product_reference_request:
  "referenceResolverRequest productService reviewParent productInfo =
     Inr \<lparr>pl_operation = gateway_createEntityReferenceResolverOperation ''Product''
                 [Field ''name'' [] None, typenameField],
          pl_fragments = [],
          pl_variables = [(''representations'',
             Arr [Obj [(''__typename'', Str ''Product''), (''id'', Str ''p1'')]])]\<rparr>"
  by (simp add: referenceResolverRequest_def productInfo_def gateway_productSelections_rewritten
      reviewParent_def)

lemma product_field_request:
  "fieldResolverRequest productService ''Review'' reviewParent productInfo =
     Inr \<lparr>pl_operation = gateway_createFieldResolverOperation ''Review'' ''product''
                 [Field ''name'' [] None, typenameField],
          pl_fragments = [],
          pl_variables = [(''representations'', Arr [reviewParent])]\<rparr>"
  by (simp add: fieldResolverRequest_def productInfo_def gateway_productSelections_rewritten)

lemma product_query_request:
  "resolveQueryRequest productService productInfo =
     Inr \<lparr>pl_operation = gateway_createQueryOperation ''product''
                 [Field ''name'' [] None, typenameField],
          pl_fragments = [], pl_variables = []\<rparr>"
  by (simp add: resolveQueryRequest_def productInfo_def gateway_productSelections_rewritten)





subsection \<open>The value a resolver resolves with\<close>

text \<open>
  C5. When the request of a resolver of the gateway module is answered, the resolver
  settles with the value read from the response: \<^verbatim>\<open>response.json.data[fieldName]\<close> for
  the query resolver, \<^verbatim>\<open>response.json.data._entities[0]\<close> for the entity-reference
  resolver and \<^verbatim>\<open>response.json.data._entities[0][fieldName]\<close> for the field resolver
  (rejected with the \<^verbatim>\<open>TypeError\<close> of the access where the response lacks the path).
\<close>

theorem resolvers_resolve_with_response_data:
  "(resolveQueryRequest svc info = Inr body \<and> request svc body = Fulfilled response \<longrightarrow>
      makeResolveQuery (Some svc) root info = Inr (settled (json_data_field response (i_fieldName info)))) \<and>
   (referenceResolverRequest svc parent info = Inr body1 \<and> request svc body1 = Fulfilled response1 \<longrightarrow>
      makeReferenceResolver (Some svc) parent info = Inr (settled (json_data_entities0 response1))) \<and>
   (fieldResolverRequest svc typeForFragment parent info = Inr body2 \<and>
      request svc body2 = Fulfilled response2 \<longrightarrow>
      makeFieldResolver (Some svc) typeForFragment parent info =
        Inr (settled (json_data_entities0_field response2 (i_fieldName info))))"
proof (intro conjI impI)
  assume "resolveQueryRequest svc info = Inr body \<and> request svc body = Fulfilled response"
  then show "makeResolveQuery (Some svc) root info =
      Inr (settled (json_data_field response (i_fieldName info)))"
    using resolveQueryRequest_sent [of svc info body]
    by (simp add: makeResolveQuery_def thenP_def settled_def
        json_data_field_def bindE_def)
next
  assume "referenceResolverRequest svc parent info = Inr body1 \<and> request svc body1 = Fulfilled response1"
  then show "makeReferenceResolver (Some svc) parent info = Inr (settled (json_data_entities0 response1))"
    using referenceResolverRequest_sent [of svc parent info body1]
    by (simp add: makeReferenceResolver_def thenP_def settled_def
        json_data_entities0_def bindE_def)
next
  assume "fieldResolverRequest svc typeForFragment parent info = Inr body2 \<and>
      request svc body2 = Fulfilled response2"
  then show "makeFieldResolver (Some svc) typeForFragment parent info =
        Inr (settled (json_data_entities0_field response2 (i_fieldName info)))"
    using fieldResolverRequest_sent [of svc typeForFragment parent info body2]
    by (simp add: makeFieldResolver_def thenP_def settled_def
        json_data_entities0_field_def json_data_entities0_def bindE_def split: sum.splits)
qed

theorem resolvers_resolve_with_response_data_witness:
  "makeResolveQuery (Some productService) Undefined productInfo =
     Inr (Fulfilled (Obj [(''name'', Str ''Table'')])) \<and>
   makeReferenceResolver (Some productService) reviewParent productInfo =
     Inr (Fulfilled (Obj [(''__typename'', Str ''Review''),
        (''product'', Obj [(''name'', Str ''Chair''), (''__typename'', Str ''Product'')])])) \<and>
   makeFieldResolver (Some productService) ''Review'' reviewParent productInfo =
     Inr (Fulfilled (Obj [(''name'', Str ''Chair''), (''__typename'', Str ''Product'')]))"
proof -
  have r: "\<And>b. request productService b = Fulfilled productResponse"
    by (simp add: productService_def)
  have v: "settled (json_data_field productResponse ''product'') =
             Fulfilled (Obj [(''name'', Str ''Table'')])"
    "settled (json_data_entities0 productResponse) =
       Fulfilled (Obj [(''__typename'', Str ''Review''),
         (''product'', Obj [(''name'', Str ''Chair''), (''__typename'', Str ''Product'')])])"
    "settled (json_data_entities0_field productResponse ''product'') =
       Fulfilled (Obj [(''name'', Str ''Chair''), (''__typename'', Str ''Product'')])"
    by (simp_all add: settled_def json_data_field_def json_data_entities0_def
        json_data_entities0_field_def bindE_def productResponse_def)
  have n: "i_fieldName productInfo = ''product''" by (simp add: productInfo_def)
  show ?thesis
    using resolvers_resolve_with_response_data [of productService productInfo _ productResponse
        Undefined reviewParent _ productResponse "''Review''" _ productResponse]
      product_query_request product_reference_request product_field_request r v n
    by simp
qed

subsection \<open>Classification of the fields\<close>

lemma defineFields_result:
  "defineFields t2s sm type fs = Inr resolved \<Longrightarrow>
     map fst resolved = fs \<and>
     (\<forall>(field, attached) \<in> set resolved. defineField t2s sm type field = Inr attached)"
  by (induction fs arbitrary: resolved) (auto split: sum.splits)

lemma defineTypes_result:
  "defineTypes t2s sm types = Inr resolved \<Longrightarrow>
     map fst resolved = types \<and>
     (\<forall>(type, fs) \<in> set resolved.
        map fst fs = type_fields type \<and>
        (type_kind type = OBJECT \<and> \<not> isDefaultType (type_name type) \<longrightarrow>
           (\<forall>(field, attached) \<in> set fs. defineField t2s sm type field = Inr attached)))"
proof (induction types arbitrary: resolved)
  case Nil
  then show ?case by simp
next
  case (Cons type rest)
  from Cons.prems obtain fs others where
    f: "(if type_kind type = OBJECT \<and> \<not> isDefaultType (type_name type)
            then defineFields t2s sm type (type_fields type)
            else Inr (map (\<lambda>field. (field, None)) (type_fields type))) = Inr fs"
    and o: "defineTypes t2s sm rest = Inr others"
    and r: "resolved = (type, fs) # others"
    by (auto split: sum.splits)
  have 1: "map fst fs = type_fields type"
    using f defineFields_result [of t2s sm type "type_fields type" fs]
    by (auto split: if_splits simp: comp_def)
  have 2: "type_kind type = OBJECT \<and> \<not> isDefaultType (type_name type) \<longrightarrow>
           (\<forall>(field, attached) \<in> set fs. defineField t2s sm type field = Inr attached)"
    using f defineFields_result [of t2s sm type "type_fields type" fs]
    by (auto split: if_splits)
  from Cons.IH [OF o] 1 2 r show ?case by auto
qed

lemma defineField_classify:
  "(if crossing index type field \<and> map_of index (type_name type) \<noteq> Some None
    then declared index serviceMap type else True) \<Longrightarrow>
   type_kind type = OBJECT \<Longrightarrow> \<not> isDefaultType (type_name type) \<Longrightarrow>
     defineField index serviceMap type field = Inr (classifySpec index serviceMap type field)"
  by (auto simp: defineField_def classifySpec_def crossing_def declared_def fieldListed_def
      declaringService_def ownedFields_def Let_def
      split: option.splits if_splits)

lemma defineField_declared:
  "defineField index serviceMap type field = Inr attached \<Longrightarrow>
   type_kind type = OBJECT \<Longrightarrow> \<not> isDefaultType (type_name type) \<Longrightarrow>
     (if crossing index type field \<and> map_of index (type_name type) \<noteq> Some None
      then declared index serviceMap type else True)"
  by (auto simp: defineField_def crossing_def declared_def declaringService_def Let_def
      split: option.splits if_splits)

lemma defineFields_classify:
  "list_all (\<lambda>field.
      if crossing index type field \<and> map_of index (type_name type) \<noteq> Some None
      then declared index serviceMap type else True) fs \<Longrightarrow>
   type_kind type = OBJECT \<Longrightarrow> \<not> isDefaultType (type_name type) \<Longrightarrow>
     defineFields index serviceMap type fs =
       Inr (map (\<lambda>field. (field, classifySpec index serviceMap type field)) fs)"
  by (induction fs) (simp_all add: defineField_classify)

lemma classifySpec_skipped:
  "\<not> (type_kind type = OBJECT \<and> \<not> isDefaultType (type_name type)) \<Longrightarrow>
     classifySpec index serviceMap type field = None"
  by (auto simp: classifySpec_def crossing_def)

lemma defineTypes_classify:
  "attachable index serviceMap schema \<Longrightarrow>
     defineTypes index serviceMap schema =
       Inr (map (\<lambda>type. (type, map (\<lambda>field. (field, classifySpec index serviceMap type field))
                                  (type_fields type))) schema)"
proof (induction schema)
  case Nil
  show ?case by simp
next
  case (Cons type rest)
  from Cons.prems have f: "list_all (\<lambda>field.
      if crossing index type field \<and> map_of index (type_name type) \<noteq> Some None
      then declared index serviceMap type else True) (type_fields type)"
    and r: "attachable index serviceMap rest"
    by (simp_all add: attachable_def)
  show ?case
  proof (cases "type_kind type = OBJECT \<and> \<not> isDefaultType (type_name type)")
    case True
    with defineFields_classify [OF f] Cons.IH [OF r] show ?thesis by simp
  next
    case False
    then have "map (\<lambda>field. (field, None)) (type_fields type) =
        map (\<lambda>field. (field, classifySpec index serviceMap type field)) (type_fields type)"
      by (simp add: classifySpec_skipped)
    with False Cons.IH [OF r] show ?thesis by auto
  qed
qed

lemma defineFields_declared:
  "defineFields index serviceMap type fs = Inr resolved \<Longrightarrow>
   type_kind type = OBJECT \<Longrightarrow> \<not> isDefaultType (type_name type) \<Longrightarrow>
     list_all (\<lambda>field.
        if crossing index type field \<and> map_of index (type_name type) \<noteq> Some None
        then declared index serviceMap type else True) fs"
proof (induction fs arbitrary: resolved)
  case Nil
  show ?case by simp
next
  case (Cons field rest)
  from Cons.prems(1) obtain attached others where
    a: "defineField index serviceMap type field = Inr attached"
    and o: "defineFields index serviceMap type rest = Inr others"
    by (auto split: sum.splits)
  from defineField_declared [OF a Cons.prems(2,3)] Cons.IH [OF o Cons.prems(2,3)]
  show ?case by simp
qed

lemma crossing_object:
  "crossing index type field \<Longrightarrow> type_kind type = OBJECT \<and> \<not> isDefaultType (type_name type)"
  by (simp add: crossing_def)

lemma defineTypes_attachable:
  "defineTypes index serviceMap schema = Inr resolved \<Longrightarrow> attachable index serviceMap schema"
proof (induction schema arbitrary: resolved)
  case Nil
  show ?case by (simp add: attachable_def)
next
  case (Cons type rest)
  from Cons.prems obtain fs others where
    f: "(if type_kind type = OBJECT \<and> \<not> isDefaultType (type_name type)
            then defineFields index serviceMap type (type_fields type)
            else Inr (map (\<lambda>field. (field, None)) (type_fields type))) = Inr fs"
    and o: "defineTypes index serviceMap rest = Inr others"
    by (auto split: sum.splits)
  have "list_all (\<lambda>field.
        if crossing index type field \<and> map_of index (type_name type) \<noteq> Some None
        then declared index serviceMap type else True) (type_fields type)"
  proof (cases "type_kind type = OBJECT \<and> \<not> isDefaultType (type_name type)")
    case True
    with f defineFields_declared [of index serviceMap type "type_fields type" fs]
    show ?thesis by simp
  next
    case False
    then have "\<not> crossing index type field" for field using crossing_object by blast
    then show ?thesis by (simp add: list_all_iff)
  qed
  with Cons.IH [OF o] show ?case by (simp add: attachable_def)
qed

lemma defineResolvers_domain:
  "(\<exists>resolved. defineResolvers schema index serviceMap = Inr resolved) =
     attachable index serviceMap schema"
  using defineTypes_classify [of index serviceMap schema]
    defineTypes_attachable [of index serviceMap schema]
  by (auto simp: defineResolvers_def)

text \<open>
  C1, as the code has it. On every schema on which it returns, which are the schemas where
  each crossing field of a type with an owner has that owner as a service declaring the
  type, \<^verbatim>\<open>defineResolvers\<close> leaves every field of every type with the resolver of its
  class and no other: none on a field that does not cross, the query resolver on a crossing
  field of a type owned by nobody, the reference resolver where the type map of the
  declaring service lists the field, the field resolver otherwise.
\<close>

theorem defineResolvers_attaches:
  "attachable index serviceMap schema \<Longrightarrow>
     defineResolvers schema index serviceMap =
       Inr (map (\<lambda>type. (type, map (\<lambda>field. (field, classifySpec index serviceMap type field))
                                  (type_fields type))) schema)"
  by (simp add: defineResolvers_def defineTypes_classify)

lemma reviewIndex:
  "buildTypeToServiceMap reviewServiceMap =
     [(''Query'', None), (''Review'', Some ''reviews''), (''Product'', Some ''products'')]"
  by (simp add: buildTypeToServiceMap_def reviewServiceMap_def reviewsService_def
      productService_def objSet_def isArrayIndex_def isDigit_def)

lemma reviewResolved:
  "defineResolvers reviewSchema (buildTypeToServiceMap reviewServiceMap) reviewServiceMap =
     Inr [(\<lparr>type_name = ''Query'', type_kind = OBJECT, type_fields =
             [\<lparr>field_name = ''reviews'', named_type = ''Review'', named_kind = OBJECT\<rparr>]\<rparr>,
           [(\<lparr>field_name = ''reviews'', named_type = ''Review'', named_kind = OBJECT\<rparr>,
             Some (ResolveQuery (Some reviewsService)))]),
          (reviewType,
           [(\<lparr>field_name = ''id'', named_type = ''ID'', named_kind = SCALAR\<rparr>, None),
            (\<lparr>field_name = ''productId'', named_type = ''ID'', named_kind = SCALAR\<rparr>, None),
            (productField, Some (FieldResolver (Some productService) ''Review''))]),
          (\<lparr>type_name = ''Product'', type_kind = OBJECT, type_fields =
             [\<lparr>field_name = ''id'', named_type = ''ID'', named_kind = SCALAR\<rparr>,
              \<lparr>field_name = ''name'', named_type = ''String'', named_kind = SCALAR\<rparr>]\<rparr>,
           [(\<lparr>field_name = ''id'', named_type = ''ID'', named_kind = SCALAR\<rparr>, None),
            (\<lparr>field_name = ''name'', named_type = ''String'', named_kind = SCALAR\<rparr>, None)])]"
  unfolding reviewIndex
  by (simp add: defineResolvers_def reviewSchema_def reviewType_def productField_def
      isDefaultType_def defineField_def reviewServiceMap_def ownerKey_def reviewsService_def)

lemma review_attachable:
  "attachable (buildTypeToServiceMap reviewServiceMap) reviewServiceMap reviewSchema"
  unfolding reviewIndex
  by (simp add: attachable_def reviewSchema_def reviewType_def productField_def crossing_def
      isDefaultType_def declared_def declaringService_def ownerKey_def reviewServiceMap_def
      reviewsService_def)

theorem defineResolvers_attaches_witness:
  "attachable (buildTypeToServiceMap reviewServiceMap) reviewServiceMap reviewSchema \<and>
   map (\<lambda>type. (type, map (\<lambda>field. (field,
           classifySpec (buildTypeToServiceMap reviewServiceMap) reviewServiceMap type field))
         (type_fields type))) reviewSchema =
     [(\<lparr>type_name = ''Query'', type_kind = OBJECT, type_fields =
          [\<lparr>field_name = ''reviews'', named_type = ''Review'', named_kind = OBJECT\<rparr>]\<rparr>,
        [(\<lparr>field_name = ''reviews'', named_type = ''Review'', named_kind = OBJECT\<rparr>,
          Some (ResolveQuery (Some reviewsService)))]),
       (reviewType,
        [(\<lparr>field_name = ''id'', named_type = ''ID'', named_kind = SCALAR\<rparr>, None),
         (\<lparr>field_name = ''productId'', named_type = ''ID'', named_kind = SCALAR\<rparr>, None),
         (productField, Some (FieldResolver (Some productService) ''Review''))]),
       (\<lparr>type_name = ''Product'', type_kind = OBJECT, type_fields =
          [\<lparr>field_name = ''id'', named_type = ''ID'', named_kind = SCALAR\<rparr>,
           \<lparr>field_name = ''name'', named_type = ''String'', named_kind = SCALAR\<rparr>]\<rparr>,
        [(\<lparr>field_name = ''id'', named_type = ''ID'', named_kind = SCALAR\<rparr>, None),
         (\<lparr>field_name = ''name'', named_type = ''String'', named_kind = SCALAR\<rparr>, None)])]"
  using defineResolvers_attaches [OF review_attachable] review_attachable reviewResolved
  by simp

text \<open>
  C1, as it is stated, gives the field resolver to every other crossing field. On a
  crossing field of an object type that no service declares, \<^verbatim>\<open>serviceMap[serviceForType]\<close>
  is \<^verbatim>\<open>undefined\<close> and reading its \<^verbatim>\<open>typeMap\<close> throws: no resolver is attached and
  \<^verbatim>\<open>defineResolvers\<close> does not return.
\<close>

theorem defineResolvers_throws_on_undeclared_type:
  "defineResolvers (reviewSchema @ [undeclaredType]) (buildTypeToServiceMap reviewServiceMap)
     reviewServiceMap = Inl TypeError"
  unfolding reviewIndex
  by (simp add: defineResolvers_def reviewSchema_def reviewType_def productField_def
      undeclaredType_def isDefaultType_def defineField_def reviewServiceMap_def ownerKey_def
      reviewsService_def)

subsection \<open>Objects\<close>

lemma insertIndexKey_map_of:
  "key \<notin> fst ` set obj \<Longrightarrow> map_of (insertIndexKey key v obj) = (map_of obj)(key \<mapsto> v)"
  by (induction obj) (auto simp: fun_eq_iff)

lemma map_of_objSet: "map_of (objSet key v obj) = (map_of obj)(key \<mapsto> v)"
proof (cases "key \<in> fst ` set obj")
  case True
  then show ?thesis by (simp add: objSet_def update_conv')
next
  case False
  then have "map_of obj key = None" by (simp add: map_of_eq_None_iff)
  then have "map_of (obj @ [(key, v)]) = (map_of obj)(key \<mapsto> v)"
    by (auto simp: fun_eq_iff map_add_def split: option.splits)
  with False show ?thesis by (simp add: objSet_def insertIndexKey_map_of)
qed

lemma insertIndexKey_keys:
  "set (map fst (insertIndexKey key v obj)) = insert key (set (map fst obj))"
  by (induction obj) force+

lemma insertIndexKey_distinct:
  "key \<notin> fst ` set obj \<Longrightarrow> distinct (map fst obj) \<Longrightarrow>
     distinct (map fst (insertIndexKey key v obj))"
proof (induction obj)
  case Nil
  show ?case by simp
next
  case (Cons p obj)
  obtain k w where p: "p = (k, w)" by (cases p)
  from Cons.prems p have "key \<notin> fst ` set obj" "distinct (map fst obj)" "k \<noteq> key"
    "k \<notin> set (map fst obj)" by auto
  with Cons.IH p show ?case
    using insertIndexKey_keys [of key v obj] by auto
qed

lemma objSet_distinct:
  "distinct (map fst obj) \<Longrightarrow> distinct (map fst (objSet key v obj))"
  by (auto simp: objSet_def distinct_update insertIndexKey_distinct)

subsection \<open>The ownership index\<close>

lemma map_of_assignTypes:
  "map_of (assignTypes service types index) type =
     (if type \<in> set types then Some (Some service) else map_of index type)"
  by (induction types arbitrary: index) (auto simp: map_of_objSet)

lemma map_of_assignServices:
  "\<forall>(name, service) \<in> set serviceMap. svc_types service = map fst (svc_typeMap service) \<Longrightarrow>
   map_of (assignServices serviceMap index) type =
     (case lastDeclaring serviceMap type of
        Some name \<Rightarrow> Some (Some name)
      | None \<Rightarrow> map_of index type)"
proof (induction serviceMap arbitrary: index)
  case Nil
  show ?case by simp
next
  case (Cons entry rest)
  obtain name service where e: "entry = (name, service)" by (cases entry)
  from Cons.prems e have t: "svc_types service = map fst (svc_typeMap service)"
    and r: "\<forall>(name, service) \<in> set rest. svc_types service = map fst (svc_typeMap service)"
    by auto
  show ?case
    using Cons.IH [OF r, of "assignTypes name (svc_types service) index"] e t
    by (auto simp: map_of_assignTypes split: option.splits)
qed

lemma buildTypeToServiceMap_lookup:
  assumes "\<forall>(name, service) \<in> set serviceMap. svc_types service = map fst (svc_typeMap service)"
  shows "map_of (buildTypeToServiceMap serviceMap) ''Query'' = Some None \<and>
     (\<forall>type. type \<noteq> ''Query'' \<longrightarrow>
        map_of (buildTypeToServiceMap serviceMap) type =
          map_option Some (lastDeclaring serviceMap type))"
  using map_of_assignServices [OF assms, of "[]"]
  by (auto simp: buildTypeToServiceMap_def map_of_objSet split: option.splits)

text \<open>
  C8, as the code has it. When every service holds the keys of its type map as its set of
  types (which is how \<^verbatim>\<open>buildServiceMap\<close> leaves a service), the ownership index gives
  \<^verbatim>\<open>null\<close> for \<^verbatim>\<open>Query\<close>, and for any other type the last service of the service map
  whose type map has the type as a key, or nothing if there is none. No other type is
  forced to \<^verbatim>\<open>null\<close>.
\<close>

theorem buildTypeToServiceMap_owner:
  assumes "\<forall>(name, service) \<in> set serviceMap. svc_types service = map fst (svc_typeMap service)"
  shows "map_of (buildTypeToServiceMap serviceMap) ''Query'' = Some None \<and>
     (\<forall>type. type \<noteq> ''Query'' \<longrightarrow>
        map_of (buildTypeToServiceMap serviceMap) type =
          map_option Some (lastDeclaring serviceMap type))"
  using buildTypeToServiceMap_lookup [OF assms] .

theorem buildTypeToServiceMap_owner_witness:
  "map_of (buildTypeToServiceMap reviewServiceMap) ''Query'' = Some None \<and>
   map_of (buildTypeToServiceMap reviewServiceMap) ''Review'' = Some (Some ''reviews'') \<and>
   map_of (buildTypeToServiceMap reviewServiceMap) ''Product'' = Some (Some ''products'') \<and>
   map_of (buildTypeToServiceMap reviewServiceMap) ''Mutation'' = None"
proof -
  have h: "\<forall>(name, service) \<in> set reviewServiceMap.
      svc_types service = map fst (svc_typeMap service)"
    by (simp add: reviewServiceMap_def reviewsService_def productService_def)
  have l: "lastDeclaring reviewServiceMap ''Review'' = Some ''reviews''"
    "lastDeclaring reviewServiceMap ''Product'' = Some ''products''"
    "lastDeclaring reviewServiceMap ''Mutation'' = None"
    by (simp_all add: reviewServiceMap_def reviewsService_def productService_def)
  show ?thesis
    using buildTypeToServiceMap_owner [OF h] l by simp
qed

text \<open>
  C8, as it is stated, also forces \<^verbatim>\<open>Mutation\<close> to \<^verbatim>\<open>null\<close>. A service that declares
  \<^verbatim>\<open>Mutation\<close> owns it in the index.
\<close>

theorem buildTypeToServiceMap_Mutation_owned:
  "map_of (buildTypeToServiceMap [(''accounts'', mutationService)]) ''Mutation'' =
     Some (Some ''accounts'') \<and>
   map_of (buildTypeToServiceMap [(''accounts'', mutationService)]) ''Query'' = Some None"
  by (simp add: buildTypeToServiceMap_def mutationService_def objSet_def isArrayIndex_def
      isDigit_def)

subsection \<open>When attaching the resolvers succeeds\<close>

text \<open>
  Types that are not object types, and the introspection types, are passed over. With the
  ownership index built from the service map, \<^verbatim>\<open>defineResolvers\<close> returns as soon as
  every object type it visits has an owner or is \<^verbatim>\<open>Query\<close>.
\<close>

lemma defineTypes_skipped:
  "defineTypes t2s sm types = Inr resolved \<Longrightarrow> (type, fs) \<in> set resolved \<Longrightarrow>
   type_kind type \<noteq> OBJECT \<or> isDefaultType (type_name type) \<Longrightarrow>
   fs = map (\<lambda>field. (field, None)) (type_fields type)"
  by (induction types arbitrary: resolved) (auto split: sum.splits if_splits)

lemma lastDeclaring_service:
  "lastDeclaring serviceMap type = Some name \<Longrightarrow> distinct (map fst serviceMap) \<Longrightarrow>
     \<exists>service. map_of serviceMap name = Some service \<and> type \<in> fst ` set (svc_typeMap service)"
proof (induction serviceMap)
  case Nil
  then show ?case by simp
next
  case (Cons entry rest)
  obtain n s where e: "entry = (n, s)" by (cases entry)
  show ?case
  proof (cases "lastDeclaring rest type")
    case None
    with Cons.prems e show ?thesis by (auto split: if_splits)
  next
    case (Some later)
    with Cons.prems e have l: "later = name" by simp
    from Cons.IH Some l Cons.prems obtain service where
      s: "map_of rest name = Some service" "type \<in> fst ` set (svc_typeMap service)" by auto
    from s(1) have "name \<in> fst ` set rest" by (metis map_of_eq_None_iff option.distinct(1))
    with Cons.prems e have "n \<noteq> name" by auto
    with s e show ?thesis by auto
  qed
qed

lemma defineField_returns:
  assumes "\<forall>(name, service) \<in> set serviceMap. svc_types service = map fst (svc_typeMap service)"
    and "distinct (map fst serviceMap)"
    and "map_of (buildTypeToServiceMap serviceMap) (type_name type) \<noteq> None"
  shows "\<exists>attached. defineField (buildTypeToServiceMap serviceMap) serviceMap type field = Inr attached"
proof (cases "type_name type = ''Query''")
  case True
  with buildTypeToServiceMap_lookup [OF assms(1)]
  have "map_of (buildTypeToServiceMap serviceMap) (type_name type) = Some None" by simp
  then show ?thesis by (simp add: defineField_def Let_def)
next
  case False
  with buildTypeToServiceMap_lookup [OF assms(1)]
  have o: "map_of (buildTypeToServiceMap serviceMap) (type_name type) =
      map_option Some (lastDeclaring serviceMap (type_name type))" by simp
  with assms(3) obtain name where n: "lastDeclaring serviceMap (type_name type) = Some name"
    by (cases "lastDeclaring serviceMap (type_name type)") auto
  from lastDeclaring_service [OF n assms(2)] obtain service where
    s: "map_of serviceMap name = Some service" "type_name type \<in> fst ` set (svc_typeMap service)"
    by auto
  from s(2) obtain owned where "map_of (svc_typeMap service) (type_name type) = Some owned"
    by (metis map_of_eq_None_iff not_Some_eq)
  with o n s(1) show ?thesis
    by (simp add: defineField_def Let_def ownerKey_def)
qed

lemma defineFields_returns:
  assumes "\<forall>(name, service) \<in> set serviceMap. svc_types service = map fst (svc_typeMap service)"
    and "distinct (map fst serviceMap)"
    and "map_of (buildTypeToServiceMap serviceMap) (type_name type) \<noteq> None"
  shows "\<exists>resolved. defineFields (buildTypeToServiceMap serviceMap) serviceMap type fs = Inr resolved"
proof (induction fs)
  case Nil
  show ?case by simp
next
  case (Cons field rest)
  from defineField_returns [OF assms, of field] Cons show ?case by auto
qed

lemma defineResolvers_returns:
  assumes "\<forall>(name, service) \<in> set serviceMap. svc_types service = map fst (svc_typeMap service)"
    and "distinct (map fst serviceMap)"
    and "\<forall>type \<in> set schema. type_kind type = OBJECT \<longrightarrow> \<not> isDefaultType (type_name type) \<longrightarrow>
           map_of (buildTypeToServiceMap serviceMap) (type_name type) \<noteq> None"
  shows "\<exists>resolved. defineResolvers schema (buildTypeToServiceMap serviceMap) serviceMap = Inr resolved"
  unfolding defineResolvers_def using assms(3)
proof (induction schema)
  case Nil
  show ?case by simp
next
  case (Cons type rest)
  then obtain others where o: "defineTypes (buildTypeToServiceMap serviceMap) serviceMap rest = Inr others"
    by auto
  show ?case
  proof (cases "type_kind type = OBJECT \<and> \<not> isDefaultType (type_name type)")
    case True
    with Cons.prems have "map_of (buildTypeToServiceMap serviceMap) (type_name type) \<noteq> None" by simp
    from defineFields_returns [OF assms(1,2) this, of "type_fields type"] o True
    show ?thesis by auto
  next
    case False
    with o show ?thesis by auto
  qed
qed

subsection \<open>The request helper\<close>

lemma handle_keeps_settled:
  "rs_promise st \<noteq> Pending \<Longrightarrow> rs_promise (handle parseJSON st ev) = rs_promise st"
  by (cases ev) (auto simp: settle_def split: option.splits)

lemma foldl_keeps_settled:
  "rs_promise st \<noteq> Pending \<Longrightarrow> rs_promise (foldl (handle parseJSON) st events) = rs_promise st"
  by (induction events arbitrary: st) (simp_all add: handle_keeps_settled)

lemma collect_data:
  "rs_data st = Some d \<Longrightarrow>
     foldl (handle parseJSON) st (map Stream_data chunks) = st\<lparr>rs_data := Some (d @ concat chunks)\<rparr>"
  by (induction chunks arbitrary: st d) auto

lemma run_invariant:
  "(rs_promise (foldl (handle parseJSON) \<lparr>rs_promise = Pending, rs_data = None\<rparr> events) = Rejected err
      \<longrightarrow> Done_error err \<in> set events) \<and>
   (rs_data (foldl (handle parseJSON) \<lparr>rs_promise = Pending, rs_data = None\<rparr> events) \<noteq> None
      \<longrightarrow> Done_response 200 \<in> set events) \<and>
   (rs_promise (foldl (handle parseJSON) \<lparr>rs_promise = Pending, rs_data = None\<rparr> events) = Fulfilled response
      \<longrightarrow> Done_response 200 \<in> set events \<and> Stream_end \<in> set events \<and> statusCode response = 200 \<and>
          (\<exists>body. parseJSON body = Some (json response)))"
proof (induction events rule: rev_induct)
  case Nil
  show ?case by simp
next
  case (snoc ev events)
  then show ?case
    by (cases ev) (auto simp: settle_def split: option.splits if_splits)
qed

lemma run_pending:
  "(\<forall>err. Done_error err \<notin> set events) \<Longrightarrow> Done_response 200 \<notin> set events \<Longrightarrow>
     foldl (handle parseJSON) \<lparr>rs_promise = Pending, rs_data = None\<rparr> events =
       \<lparr>rs_promise = Pending, rs_data = None\<rparr>"
proof (induction events rule: rev_induct)
  case Nil
  show ?case by simp
next
  case (snoc ev events)
  then show ?case by (cases ev) auto
qed

text \<open>
  The promise is rejected only with an error the transport reported, and fulfilled only
  after a response with status 200 and the end of its stream, with status 200 and a parsed
  body; a trace without error and without a response of status 200 leaves it pending.
\<close>

lemma serviceRequest_settled_only:
  "(serviceRequest parseJSON rejecting = Rejected err \<longrightarrow> Done_error err \<in> set rejecting) \<and>
   (serviceRequest parseJSON fulfilling = Fulfilled response \<longrightarrow>
      Done_response 200 \<in> set fulfilling \<and> Stream_end \<in> set fulfilling \<and>
      statusCode response = 200 \<and> (\<exists>body. parseJSON body = Some (json response))) \<and>
   ((\<forall>e. Done_error e \<notin> set events) \<and> Done_response 200 \<notin> set events \<longrightarrow>
      serviceRequest parseJSON events = Pending) \<and>
   serviceRequest parseJSON (Done_error err' # later) = Rejected err' \<and>
   (parseJSON (concat chunks) = Some j \<longrightarrow>
      serviceRequest parseJSON (Done_response 200 # map Stream_data chunks @ Stream_end # later') =
        Fulfilled \<lparr>statusCode = 200, json = j\<rparr>)"
proof (intro conjI impI)
  assume "serviceRequest parseJSON rejecting = Rejected err"
  with run_invariant [of parseJSON rejecting err] show "Done_error err \<in> set rejecting"
    by (simp add: serviceRequest_def)
next
  assume f: "serviceRequest parseJSON fulfilling = Fulfilled response"
  with run_invariant [of parseJSON fulfilling _ response]
  show "Done_response 200 \<in> set fulfilling" "Stream_end \<in> set fulfilling"
    "statusCode response = 200" "\<exists>body. parseJSON body = Some (json response)"
    by (simp_all add: serviceRequest_def)
next
  assume "(\<forall>e. Done_error e \<notin> set events) \<and> Done_response 200 \<notin> set events"
  then show "serviceRequest parseJSON events = Pending"
    by (simp add: serviceRequest_def run_pending)
next
  show "serviceRequest parseJSON (Done_error err' # later) = Rejected err'"
    by (simp add: serviceRequest_def settle_def foldl_keeps_settled)
next
  assume p: "parseJSON (concat chunks) = Some j"
  have "foldl (handle parseJSON) \<lparr>rs_promise = Pending, rs_data = Some []\<rparr> (map Stream_data chunks) =
      \<lparr>rs_promise = Pending, rs_data = Some (concat chunks)\<rparr>"
    using collect_data [of "\<lparr>rs_promise = Pending, rs_data = Some []\<rparr>" "[]" parseJSON chunks] by simp
  with p show "serviceRequest parseJSON (Done_response 200 # map Stream_data chunks @ Stream_end # later') =
        Fulfilled \<lparr>statusCode = 200, json = j\<rparr>"
    by (simp add: serviceRequest_def settle_def foldl_keeps_settled)
qed

lemma chunksOf_append: "chunksOf (xs @ ys) = chunksOf xs @ chunksOf ys"
  by (induction xs rule: chunksOf.induct) simp_all

lemma collectedBody_snoc:
  "collectedBody (before @ [Done_response code]) =
     (if code = 200 then Some [] else collectedBody before)"
  "collectedBody (before @ [Stream_data chunk]) =
     map_option (\<lambda>d. d @ chunk) (collectedBody before)"
  "collectedBody (before @ [Stream_end]) = collectedBody before"
  "collectedBody (before @ [Done_error err]) = collectedBody before"
  by (auto simp: collectedBody_def sinceLastOk_def chunksOf_append)

lemma settlesWith_not_pending: "settlesWith parseJSON before ev = Some outcome \<Longrightarrow> outcome \<noteq> Pending"
  by (cases ev) (auto split: option.splits)

lemma handle_settles:
  "rs_promise st = Pending \<Longrightarrow> rs_data st = collectedBody before \<Longrightarrow>
   settlesWith parseJSON before ev = Some outcome \<Longrightarrow>
   rs_promise (handle parseJSON st ev) = outcome"
  by (cases ev) (auto simp: settle_def split: option.splits)

lemma handle_continues:
  "rs_promise st = Pending \<Longrightarrow> rs_data st = collectedBody before \<Longrightarrow>
   settlesWith parseJSON before ev = None \<Longrightarrow>
   rs_promise (handle parseJSON st ev) = Pending \<and>
   rs_data (handle parseJSON st ev) = collectedBody (before @ [ev])"
  by (cases ev) (auto simp: settle_def collectedBody_snoc split: option.splits)

lemma run_outcome:
  "rs_promise st = Pending \<Longrightarrow> rs_data st = collectedBody before \<Longrightarrow>
     rs_promise (foldl (handle parseJSON) st events) = requestOutcome parseJSON before events"
proof (induction events arbitrary: st before)
  case Nil
  then show ?case by simp
next
  case (Cons ev events)
  show ?case
  proof (cases "settlesWith parseJSON before ev")
    case None
    from handle_continues [OF Cons.prems None]
    have "rs_promise (handle parseJSON st ev) = Pending"
      "rs_data (handle parseJSON st ev) = collectedBody (before @ [ev])" by simp_all
    from Cons.IH [OF this] None show ?thesis by simp
  next
    case (Some outcome)
    from handle_settles [OF Cons.prems Some] settlesWith_not_pending [OF Some]
    have "rs_promise (handle parseJSON st ev) = outcome" "rs_promise (handle parseJSON st ev) \<noteq> Pending"
      by simp_all
    with foldl_keeps_settled [of "handle parseJSON st ev" parseJSON events] Some
    show ?thesis by simp
  qed
qed

lemma serviceRequest_requestOutcome:
  "serviceRequest parseJSON events = requestOutcome parseJSON [] events"
  using run_outcome [of "\<lparr>rs_promise = Pending, rs_data = None\<rparr>" "[]" parseJSON events]
  by (simp add: serviceRequest_def collectedBody_def)

lemma requestOutcome_append:
  "requestOutcome parseJSON before quiet = Pending \<Longrightarrow>
     requestOutcome parseJSON before (quiet @ later) = requestOutcome parseJSON (before @ quiet) later"
proof (induction quiet arbitrary: before)
  case Nil
  show ?case by simp
next
  case (Cons ev quiet)
  then show ?case
    by (cases "settlesWith parseJSON before ev") (auto dest: settlesWith_not_pending)
qed

text \<open>
  An error reported while the promise is pending rejects it, whatever came before and
  whatever comes after; the end of the stream fulfils a pending promise when the body read
  parses, and leaves it pending when it does not.
\<close>

lemma serviceRequest_error_while_pending:
  "serviceRequest parseJSON quiet = Pending \<Longrightarrow>
     serviceRequest parseJSON (quiet @ Done_error err # later) = Rejected err"
  by (simp add: serviceRequest_requestOutcome requestOutcome_append)

lemma serviceRequest_end_while_pending:
  "serviceRequest parseJSON quiet = Pending \<Longrightarrow> collectedBody quiet = Some body \<Longrightarrow>
   parseJSON body = Some j \<Longrightarrow>
     serviceRequest parseJSON (quiet @ Stream_end # later) = Fulfilled \<lparr>statusCode = 200, json = j\<rparr>"
  by (simp add: serviceRequest_requestOutcome requestOutcome_append)

lemma serviceRequest_end_unparsable:
  "serviceRequest parseJSON quiet = Pending \<Longrightarrow> collectedBody quiet = Some body \<Longrightarrow>
   parseJSON body = None \<Longrightarrow> serviceRequest parseJSON (quiet @ [Stream_end]) = Pending"
  by (simp add: serviceRequest_requestOutcome requestOutcome_append)

lemma serviceRequest_end_without_ok:
  "serviceRequest parseJSON quiet = Pending \<Longrightarrow> collectedBody quiet = None \<Longrightarrow>
     serviceRequest parseJSON (quiet @ [Stream_end]) = Pending"
  by (simp add: serviceRequest_requestOutcome requestOutcome_append)

text \<open>
  C10, as the code has it. On every sequence of events the promise of the request helper
  is the one the specification describes: rejected with the first error the transport
  reports while it is pending, fulfilled with status 200 and the parsed body at the first
  end of the stream of a response with status 200 whose body parses while it is pending,
  and pending in every other case.
\<close>

theorem serviceRequest_outcome:
  "serviceRequest parseJSON events = requestOutcome parseJSON [] events \<and>
   (serviceRequest parseJSON quiet = Pending \<longrightarrow>
      serviceRequest parseJSON (quiet @ Done_error err # later) = Rejected err) \<and>
   (serviceRequest parseJSON reading = Pending \<and> collectedBody reading = Some body \<and>
    parseJSON body = Some j \<longrightarrow>
      serviceRequest parseJSON (reading @ Stream_end # later') =
        Fulfilled \<lparr>statusCode = 200, json = j\<rparr>) \<and>
   (serviceRequest parseJSON reading' = Pending \<and> collectedBody reading' = Some body' \<and>
    parseJSON body' = None \<longrightarrow>
      serviceRequest parseJSON (reading' @ [Stream_end]) = Pending) \<and>
   ((\<forall>e. Done_error e \<notin> set silent) \<and> Done_response 200 \<notin> set silent \<longrightarrow>
      serviceRequest parseJSON silent = Pending)"
  using serviceRequest_requestOutcome [of parseJSON events]
    serviceRequest_error_while_pending [of parseJSON quiet err later]
    serviceRequest_end_while_pending [of parseJSON reading body j later']
    serviceRequest_end_unparsable [of parseJSON reading' body']
    run_pending [of silent parseJSON]
  by (simp add: serviceRequest_def)

text \<open>
  The four cases on the introspection request of a service: a connection reset while the
  body is read rejects, a body read to its end that parses fulfils, a body that does not
  parse and a response with status 404 leave the promise pending.
\<close>

theorem serviceRequest_outcome_witness:
  "serviceRequest (env_JSON_parse (bootEnv []))
     [Done_response 200, Stream_data ''s'', Done_error (TransportError ''ECONNRESET''), Stream_end]
     = Rejected (TransportError ''ECONNRESET'') \<and>
   serviceRequest (env_JSON_parse (bootEnv []))
     [Done_response 200, Stream_data ''s'', Stream_data ''dl'', Stream_end]
     = Fulfilled \<lparr>statusCode = 200,
         json = Obj [(''data'', Obj [(''_service'', Obj [(''sdl'', Str ''type Query'')])])]\<rparr> \<and>
   serviceRequest (env_JSON_parse (bootEnv []))
     [Done_response 200, Stream_data ''<html>'', Stream_end] = Pending \<and>
   serviceRequest (env_JSON_parse (bootEnv []))
     [Done_response 404, Stream_data ''sdl'', Stream_end] = Pending"
proof -
  let ?p = "env_JSON_parse (bootEnv [])"
  have q: "serviceRequest ?p [Done_response 200, Stream_data ''s''] = Pending"
    "serviceRequest ?p [Done_response 200, Stream_data ''s'', Stream_data ''dl''] = Pending"
    "serviceRequest ?p [Done_response 200, Stream_data ''<html>''] = Pending"
    by (simp_all add: serviceRequest_def)
  have c: "collectedBody [Done_response 200, Stream_data ''s'', Stream_data ''dl''] = Some ''sdl''"
    "collectedBody [Done_response 200, Stream_data ''<html>''] = Some ''<html>''"
    by (simp_all add: collectedBody_def sinceLastOk_def)
  have j: "?p ''sdl'' = Some (Obj [(''data'', Obj [(''_service'', Obj [(''sdl'', Str ''type Query'')])])])"
    "?p ''<html>'' = None"
    by (simp_all add: bootEnv_def)
  have s: "(\<forall>e. Done_error e \<notin> set [Done_response 404, Stream_data ''sdl'', Stream_end]) \<and>
      Done_response 200 \<notin> set [Done_response 404, Stream_data ''sdl'', Stream_end]"
    by simp
  show ?thesis
    using serviceRequest_outcome [of ?p "[]" "[Done_response 200, Stream_data ''s'']"
        "TransportError ''ECONNRESET''" "[Stream_end]"
        "[Done_response 200, Stream_data ''s'', Stream_data ''dl'']" "''sdl''"
        "Obj [(''data'', Obj [(''_service'', Obj [(''sdl'', Str ''type Query'')])])]" "[]"
        "[Done_response 200, Stream_data ''<html>'']" "''<html>''"
        "[Done_response 404, Stream_data ''sdl'', Stream_end]"]
      q c j s
    by simp
qed

text \<open>
  C10, as it is stated, has the promise resolve once a response with status 200 has been
  read to its end. When the body is not JSON, \<^verbatim>\<open>JSON.parse\<close> throws inside the listener
  of the end of the stream, which neither resolves nor rejects: the promise stays pending.
\<close>

theorem serviceRequest_unparsable_body_pending:
  "serviceRequest (\<lambda>text. None) [Done_response 200, Stream_data ''<html>'', Stream_end] = Pending"
  by (simp add: serviceRequest_def)

subsection \<open>Bootstrap\<close>

text \<open>
  A service map that \<^verbatim>\<open>buildServiceMap\<close> fulfils with has one entry per name, and each
  service in it holds the keys of its type map as its set of types.
\<close>

lemma configure_distinct:
  "configure env services serviceMap = Inr configured \<Longrightarrow> distinct (map fst serviceMap) \<Longrightarrow>
     distinct (map fst configured)"
  by (induction services arbitrary: serviceMap) (auto split: if_splits simp: objSet_distinct)

lemma initialised_wellformed:
  "fst (initialised env results entry) = fst entry \<and>
   svc_types (snd (initialised env results entry)) =
     map fst (svc_typeMap (snd (initialised env results entry)))"
  by (cases entry) (auto simp: initialised_def split: option.splits)

lemma buildServiceMap_wellformed:
  assumes "Fulfilled serviceMap \<in> set (buildServiceMap env services)"
  shows "distinct (map fst serviceMap) \<and>
     (\<forall>(name, service) \<in> set serviceMap. svc_types service = map fst (svc_typeMap service))"
proof -
  obtain configured where c: "configure env services [] = Inr configured"
    using assms by (cases "configure env services []") (auto simp: buildServiceMap_def)
  with assms obtain outcome where
    "thenP outcome (\<lambda>results. Inr (map (initialised env results) configured)) = Fulfilled serviceMap"
    by (auto simp: buildServiceMap_def)
  then obtain results where s: "serviceMap = map (initialised env results) configured"
    by (cases outcome) (auto simp: thenP_def)
  from configure_distinct [OF c] have d: "distinct (map fst configured)" by simp
  have "map fst serviceMap = map fst configured"
    unfolding s using initialised_wellformed by (simp add: comp_def)
  with d have 1: "distinct (map fst serviceMap)" by simp
  have "svc_types service = map fst (svc_typeMap service)"
    if "(name, service) \<in> set serviceMap" for name service
  proof -
    from that s obtain entry where "initialised env results entry = (name, service)" by auto
    with initialised_wellformed [of env results entry] show ?thesis by simp
  qed
  then have 2: "\<forall>(name, service) \<in> set serviceMap. svc_types service = map fst (svc_typeMap service)"
    by auto
  from 1 2 show ?thesis by simp
qed

lemma firstRejections_subset:
  "e \<in> set (firstRejections c blocked ps) \<Longrightarrow> Rejected e \<in> set ps"
  by (induction ps arbitrary: blocked) (auto split: if_splits promise.splits)

lemma firstRejections_member:
  "i < length ps \<Longrightarrow> ps ! i = Rejected e \<Longrightarrow>
   blocked + length (filter (\<lambda>p. \<not> isFulfilled p) (take i ps)) < c \<Longrightarrow>
   e \<in> set (firstRejections c blocked ps)"
proof (induction ps arbitrary: i blocked)
  case Nil
  then show ?case by simp
next
  case (Cons p ps)
  show ?case
  proof (cases i)
    case 0
    with Cons.prems show ?thesis by simp
  next
    case (Suc k)
    with Cons.prems have k: "k < length ps" "ps ! k = Rejected e" by simp_all
    show ?thesis
    proof (cases p)
      case (Fulfilled v)
      with Cons.prems Suc have "blocked + length (filter (\<lambda>p. \<not> isFulfilled p) (take k ps)) < c"
        by (simp add: isFulfilled_def)
      from Cons.IH [OF k this] Fulfilled Cons.prems show ?thesis by simp
    next
      case Pending
      with Cons.prems Suc have "Suc blocked + length (filter (\<lambda>p. \<not> isFulfilled p) (take k ps)) < c"
        by (simp add: isFulfilled_def)
      from Cons.IH [OF k this] Pending Cons.prems show ?thesis by simp
    next
      case (Rejected e')
      with Cons.prems Suc have "Suc blocked + length (filter (\<lambda>p. \<not> isFulfilled p) (take k ps)) < c"
        by (simp add: isFulfilled_def)
      from Cons.IH [OF k this] Rejected Cons.prems show ?thesis by simp
    qed
  qed
qed

lemma thenP_Rejected: "thenP (Rejected e) f = Rejected e"
  by (simp add: thenP_def)

lemma buildGateway_rejections:
  assumes "configure env services [] = Inr serviceMap"
    and "firstRejections 8 0 (map (mapper env serviceMap) services) \<noteq> []"
  shows "buildGateway env services =
     map Rejected (firstRejections 8 0 (map (mapper env serviceMap) services))"
  using assms
  by (simp add: buildGateway_def buildServiceMap_def pmap_def thenP_Rejected comp_def)

lemma init_settles:
  "configRequest env url serviceInfoQuery = Rejected err \<Longrightarrow> init env url = Rejected err"
  "configRequest env url serviceInfoQuery = Pending \<Longrightarrow> init env url = Pending"
  "configRequest env url serviceInfoQuery = Fulfilled response \<Longrightarrow>
     json response = Obj [(''data'', Obj [])] \<Longrightarrow> init env url = Rejected TypeError"
  "configRequest env url serviceInfoQuery = Fulfilled response \<Longrightarrow>
     json response = Obj [(''data'', Obj [(''_service'', Obj [])])] \<Longrightarrow>
     init env url = Rejected (GraphQLError ''Must provide Source'')"
  "configRequest env url serviceInfoQuery = Fulfilled response \<Longrightarrow>
     json response = Obj [(''data'', Obj [(''_service'', Obj [(''sdl'', Str sdl)])])] \<Longrightarrow>
     env_parse env sdl = Inl err \<Longrightarrow> init env url = Rejected err"
  by (simp_all add: init_def thenP_def bindE_def createTypeMap_def)

lemma buildGateway_pending:
  assumes "configure env services [] = Inr serviceMap"
    and "firstRejections 8 0 (map (mapper env serviceMap) services) = []"
    and "\<not> list_all isFulfilled (map (mapper env serviceMap) services)"
  shows "buildGateway env services = [Pending]"
  using assms
  by (simp add: buildGateway_def buildServiceMap_def pmap_def thenP_def)

text \<open>
  C7, as the code has it. When the introspection of a service fails, and fewer than eight
  of the services before it in the list are left without a completed introspection,
  building the gateway has at least one possible outcome and every possible outcome is a
  rejection, with the error of a failed introspection as it was thrown: no gateway, whole
  or partial, is produced.
\<close>

theorem buildGateway_fails_with_introspection_error:
  assumes "configure env services [] = Inr serviceMap"
    and "i < length services"
    and "mapper env serviceMap (services ! i) = Rejected err"
    and "length (filter (\<lambda>service. \<not> isFulfilled (mapper env serviceMap service)) (take i services)) < 8"
  shows "buildGateway env services \<noteq> [] \<and>
     (\<forall>outcome \<in> set (buildGateway env services).
        \<exists>service \<in> set services. \<exists>e. mapper env serviceMap service = Rejected e \<and> outcome = Rejected e)"
proof -
  let ?ps = "map (mapper env serviceMap) services"
  have "length (filter (\<lambda>p. \<not> isFulfilled p) (take i ?ps)) < 8"
    using assms(4) by (simp add: take_map filter_map comp_def)
  with assms(2,3) have m: "err \<in> set (firstRejections 8 0 ?ps)"
    using firstRejections_member [of i ?ps err 0 8] by simp
  then have ne: "firstRejections 8 0 ?ps \<noteq> []" by auto
  note b = buildGateway_rejections [OF assms(1) ne]
  have "\<exists>service \<in> set services. mapper env serviceMap service = Rejected e"
    if "e \<in> set (firstRejections 8 0 ?ps)" for e
  proof -
    from firstRejections_subset [OF that] have "Rejected e \<in> set ?ps" .
    then show ?thesis by (auto simp: image_iff)
  qed
  with b ne show ?thesis by auto
qed

lemma configure_two:
  "configure (bootEnv failing) twoServices [] = Inr [(''a'', ''http://a''), (''b'', ''http://b'')]"
  by (simp add: bootEnv_def twoServices_def objSet_def isArrayIndex_def isDigit_def)

lemma init_boot:
  "init (bootEnv failing) url =
     (if url = failing then Rejected TypeError
      else Fulfilled (Str ''type Query'', [(''Query'', [''me''])]))"
  by (simp add: init_def configRequest_def serviceRequest_def bootEnv_def settle_def thenP_def
      bindE_def createTypeMap_def objSet_def isArrayIndex_def isDigit_def)

lemma mappers_two:
  "map (mapper (bootEnv failing) [(''a'', ''http://a''), (''b'', ''http://b'')]) twoServices =
     [if failing = ''http://a'' then Rejected TypeError
      else Fulfilled (''a'', Str ''type Query'', [(''Query'', [''me''])]),
      if failing = ''http://b'' then Rejected TypeError
      else Fulfilled (''b'', Str ''type Query'', [(''Query'', [''me''])])]"
  by (auto simp: twoServices_def mapper_def init_boot thenP_def)

theorem buildGateway_fails_with_introspection_error_witness:
  "configure (bootEnv ''http://b'') twoServices [] = Inr [(''a'', ''http://a''), (''b'', ''http://b'')] \<and>
   mapper (bootEnv ''http://b'') [(''a'', ''http://a''), (''b'', ''http://b'')] (twoServices ! 1) =
     Rejected TypeError \<and>
   buildGateway (bootEnv ''http://b'') twoServices = [Rejected TypeError]"
proof -
  have m: "mapper (bootEnv ''http://b'') [(''a'', ''http://a''), (''b'', ''http://b'')] (twoServices ! 1) =
     Rejected TypeError"
    by (simp add: twoServices_def mapper_def init_boot thenP_def)
  have l: "(1::nat) < length twoServices" by (simp add: twoServices_def)
  have b: "length (filter (\<lambda>service. \<not> isFulfilled
        (mapper (bootEnv ''http://b'') [(''a'', ''http://a''), (''b'', ''http://b'')] service))
      (take 1 twoServices)) < 8"
    by (simp add: twoServices_def)
  have g: "buildGateway (bootEnv ''http://b'') twoServices = [Rejected TypeError]"
    by (simp add: buildGateway_def buildServiceMap_def configure_two pmap_def mappers_two
        thenP_def isFulfilled_def)
  show ?thesis
    using buildGateway_fails_with_introspection_error [OF configure_two l m b] configure_two m g
    by simp
qed

text \<open>
  C7, as it is stated, has the error identify the failing service. The error is the one
  the introspection threw: when \<open>a\<close> answers without \<^verbatim>\<open>_service\<close> and \<open>b\<close> is sound, and
  when \<open>b\<close> answers without \<^verbatim>\<open>_service\<close> and \<open>a\<close> is sound, building the gateway ends in
  the same rejection.
\<close>

theorem buildGateway_error_names_no_service:
  "buildGateway (bootEnv ''http://a'') twoServices = [Rejected TypeError] \<and>
   buildGateway (bootEnv ''http://b'') twoServices = [Rejected TypeError] \<and>
   init (bootEnv ''http://a'') ''http://a'' = Rejected TypeError \<and>
   isFulfilled (init (bootEnv ''http://a'') ''http://b'') \<and>
   isFulfilled (init (bootEnv ''http://b'') ''http://a'') \<and>
   init (bootEnv ''http://b'') ''http://b'' = Rejected TypeError"
  by (simp add: buildGateway_def buildServiceMap_def configure_two pmap_def mappers_two init_boot
      thenP_def isFulfilled_def)

subsection \<open>Cyclic fragments\<close>

lemma cyclic_prune_A:
  "removeNonServiceTypeFields [Field ''id'' [] None, FragmentSpread ''B''] userService ''User'' sch
     = Inr [Field ''id'' [] None, FragmentSpread ''B'', typenameField]"
  by (simp add: removeNonServiceTypeFields.simps retained_def userService_def)

lemma cyclic_prune_B:
  "removeNonServiceTypeFields [Field ''name'' [] None, FragmentSpread ''A''] userService ''User'' sch
     = Inr [Field ''name'' [] None, FragmentSpread ''A'', typenameField]"
  by (simp add: removeNonServiceTypeFields.simps retained_def userService_def)

lemma cyclicFragments_A:
  "cyclicFragments ''A'' = Some \<lparr>frag_name = ''A'', typeCondition = ''User'',
      frag_selections = [Field ''id'' [] None, FragmentSpread ''B'']\<rparr>"
  by (simp add: cyclicFragments_def)

lemma cyclicFragments_B:
  "cyclicFragments ''B'' = Some \<lparr>frag_name = ''B'', typeCondition = ''User'',
      frag_selections = [Field ''name'' [] None, FragmentSpread ''A'']\<rparr>"
  by (simp add: cyclicFragments_def)

lemma cyclic_both_diverge:
  "collectFragmentsToInclude depth [''A''] cyclicFragments userService sch = None \<and>
   collectFragmentsToInclude depth [''B''] cyclicFragments userService sch = None"
proof (induction depth arbitrary: sch)
  case 0
  show ?case by simp
next
  case (Suc d)
  have A: "collectFragmentsToInclude (Suc d) [''A''] cyclicFragments userService sch = None"
    using Suc [of None]
    by (simp add: cyclicFragments_A cyclic_prune_A typenameField_def)
  have B: "collectFragmentsToInclude (Suc d) [''B''] cyclicFragments userService sch = None"
    using Suc [of None]
    by (simp add: cyclicFragments_B cyclic_prune_B typenameField_def)
  from A B show ?case by simp
qed

text \<open>
  C9. Collecting the fragments to forward is claimed to terminate on every input, cyclic
  fragment references included. With fragment \<open>A\<close> spreading \<open>B\<close> and \<open>B\<close> spreading
  \<open>A\<close>, the call for \<open>[A]\<close> does not return at any depth of nested calls: the visited
  set of a call is not seen by the calls nested in it.
\<close>

theorem collectFragmentsToInclude_cycle_never_returns:
  "collectFragmentsToInclude depth [''A''] cyclicFragments userService (Some []) = None"
  using cyclic_both_diverge by blast

end
